theory Spec2Isabelle
  imports Main "HOL-Library.AList"
begin

section \<open>Go library functions the service calls\<close>

text \<open>
  Go strings are byte sequences; they are modelled as \<open>string\<close> (a list of bytes).
  \<open>Cut s sep\<close> splits \<open>s\<close> around the first occurrence of \<open>sep\<close>, and
  \<open>SplitN2 s sep\<close> is \<open>strings.SplitN(s, sep, 2)\<close> for the non-empty separators the
  service uses: one part when \<open>sep\<close> does not occur, otherwise the text before the
  first occurrence and the text after it.
\<close>

fun Cut :: "string \<Rightarrow> string \<Rightarrow> (string \<times> string) option" where
  "Cut [] sep = (if sep = [] then Some ([], []) else None)"
| "Cut (c # cs) sep =
     (if take (length sep) (c # cs) = sep then Some ([], drop (length sep) (c # cs))
      else (case Cut cs sep of None \<Rightarrow> None | Some (a, b) \<Rightarrow> Some (c # a, b)))"

definition SplitN2 :: "string \<Rightarrow> string \<Rightarrow> string list" where
  "SplitN2 s sep = (case Cut s sep of None \<Rightarrow> [s] | Some (a, b) \<Rightarrow> [a, b])"

text \<open>
  \<open>strings.TrimSpace\<close> removes leading and trailing white space as
  \<open>unicode.IsSpace\<close> defines it. \<open>spaces\<close> lists the UTF-8 encodings of those code
  points: U+0009 to U+000D, U+0020, U+0085, U+00A0, U+1680, U+2000 to U+200A, U+2028,
  U+2029, U+202F, U+205F and U+3000.
\<close>

definition spaces :: "string list" where
  "spaces =
     [[CHR 0x09], [CHR 0x0A], [CHR 0x0B], [CHR 0x0C], [CHR 0x0D], [CHR 0x20],
      [CHR 0xC2, CHR 0x85], [CHR 0xC2, CHR 0xA0], [CHR 0xE1, CHR 0x9A, CHR 0x80],
      [CHR 0xE2, CHR 0x80, CHR 0x80], [CHR 0xE2, CHR 0x80, CHR 0x81],
      [CHR 0xE2, CHR 0x80, CHR 0x82], [CHR 0xE2, CHR 0x80, CHR 0x83],
      [CHR 0xE2, CHR 0x80, CHR 0x84], [CHR 0xE2, CHR 0x80, CHR 0x85],
      [CHR 0xE2, CHR 0x80, CHR 0x86], [CHR 0xE2, CHR 0x80, CHR 0x87],
      [CHR 0xE2, CHR 0x80, CHR 0x88], [CHR 0xE2, CHR 0x80, CHR 0x89],
      [CHR 0xE2, CHR 0x80, CHR 0x8A], [CHR 0xE2, CHR 0x80, CHR 0xA8],
      [CHR 0xE2, CHR 0x80, CHR 0xA9], [CHR 0xE2, CHR 0x80, CHR 0xAF],
      [CHR 0xE2, CHR 0x81, CHR 0x9F], [CHR 0xE3, CHR 0x80, CHR 0x80]]"

fun trimLeading :: "string list \<Rightarrow> string \<Rightarrow> string" where
  "trimLeading pats [] = []"
| "trimLeading pats (c # cs) =
     (case find (\<lambda>w. w \<noteq> [] \<and> take (length w) (c # cs) = w) pats of
        None \<Rightarrow> c # cs
      | Some w \<Rightarrow> trimLeading pats (drop (length w - 1) cs))"

definition TrimSpace :: "string \<Rightarrow> string" where
  "TrimSpace s = rev (trimLeading (map rev spaces) (rev (trimLeading spaces s)))"

text \<open>\<open>strconv.Itoa\<close> and the verb \<open>%d\<close>: the decimal form of an integer.\<close>

fun digits :: "nat \<Rightarrow> string" where
  "digits n =
     (if n < 10 then [''0123456789'' ! n]
      else digits (n div 10) @ [''0123456789'' ! (n mod 10)])"

declare digits.simps [simp del]

definition Itoa :: "int \<Rightarrow> string" where
  "Itoa i = (if i < 0 then CHR ''-'' # digits (nat (- i)) else digits (nat i))"

text \<open>
  Go's \<open>int\<close> and \<open>int64\<close> are 64-bit two's complement on the targets the service is
  built for. Integers are kept as \<open>int\<close>, and \<open>wrap64\<close> is written wherever the
  program does arithmetic on them: it maps the mathematical result to the value the
  machine keeps.
\<close>

definition wrap64 :: "int \<Rightarrow> int" where
  "wrap64 x = (x + 9223372036854775808) mod 18446744073709551616 - 9223372036854775808"

section \<open>Data model\<close>

text \<open>
  \<open>JSONNullString\<close>, \<open>Config\<close> and \<open>Camera\<close> are the structs of the service; a
  \<open>JSONNullString\<close> is a \<open>sql.NullString\<close>: a text and the flag that says it is
  not null.
\<close>

record JSONNullString =
  String :: string
  Valid :: bool

record Config =
  SegmentTime :: int
  RetryInterval :: int
  MaxBackoff :: int

record Camera =
  ID :: int
  Name :: string
  URL :: string
  OutputDir :: string
  Username :: JSONNullString
  Password :: JSONNullString
  Restream :: JSONNullString

text \<open>
  \<open>UnmarshalJSON\<close> is the decoder hook of \<open>JSONNullString\<close>. The JSON string
  decoder it delegates to (\<open>json.Unmarshal\<close> into a Go string) is the parameter
  \<open>dec\<close>, which returns the error text or the decoded string. The result is the
  error (if any) and the value left in the receiver.
\<close>

definition UnmarshalJSON ::
  "(string \<Rightarrow> string + string) \<Rightarrow> string \<Rightarrow> JSONNullString \<Rightarrow> string option \<times> JSONNullString" where
  "UnmarshalJSON dec data ns =
     (if data = ''null'' then (None, ns\<lparr>String := [], Valid := False\<rparr>)
      else (case dec data of
              Inl err \<Rightarrow> (Some err, ns\<lparr>Valid := False\<rparr>)
            | Inr str \<Rightarrow> (None, ns\<lparr>String := str, Valid := True\<rparr>)))"

section \<open>The camera store\<close>

text \<open>
  The table \<open>cameras\<close> as \<open>initDB\<close> creates it: \<open>id INTEGER PRIMARY KEY
  AUTOINCREMENT\<close>, \<open>name\<close>, \<open>url\<close> and \<open>output_dir\<close> \<open>TEXT NOT NULL UNIQUE\<close>,
  \<open>restream_url TEXT UNIQUE\<close>, \<open>username\<close> and \<open>password\<close> \<open>TEXT\<close>. A nullable
  column holds \<open>None\<close> for SQL NULL. \<open>seq\<close> is the AUTOINCREMENT high-water mark
  (the table \<open>sqlite_sequence\<close>). Rows are kept in insertion order, the order in which
  a \<open>SELECT\<close> without \<open>ORDER BY\<close> walks the table.
\<close>

record CameraRow =
  c_id :: int
  c_name :: string
  c_url :: string
  c_output_dir :: string
  c_restream_url :: "string option"
  c_username :: "string option"
  c_password :: "string option"

record DB =
  cameras :: "CameraRow list"
  seq :: int

text \<open>
  The UNIQUE constraint an \<open>INSERT\<close> of the given values is reported to violate,
  by column name. SQLite checks the indexes of the UNIQUE columns from the one
  declared last to the one declared first and reports the first that fails. Two
  NULLs never violate a UNIQUE constraint.
\<close>

definition uniqueViolation ::
  "CameraRow list \<Rightarrow> string \<Rightarrow> string \<Rightarrow> string \<Rightarrow> string option \<Rightarrow> string option" where
  "uniqueViolation rows n u d r =
     (if r \<noteq> None \<and> r \<in> set (map c_restream_url rows) then Some ''restream_url''
      else if d \<in> set (map c_output_dir rows) then Some ''output_dir''
      else if u \<in> set (map c_url rows) then Some ''url''
      else if n \<in> set (map c_name rows) then Some ''name''
      else None)"

text \<open>
  \<open>INSERT INTO cameras (name, url, output_dir, restream_url, username, password)
  VALUES (?, ?, ?, ?, ?, ?)\<close>: the error text, or the store with the new row and the
  new row's id (\<open>LastInsertId\<close>), one more than the largest id ever used.
\<close>

definition nextId :: "DB \<Rightarrow> int" where
  "nextId d = fold max (map c_id (cameras d)) (seq d) + 1"

definition insertCamera ::
  "DB \<Rightarrow> string \<Rightarrow> string \<Rightarrow> string \<Rightarrow> string option \<Rightarrow> string option \<Rightarrow> string option
     \<Rightarrow> string + (DB \<times> int)" where
  "insertCamera d n u dir r usr pw =
     (case uniqueViolation (cameras d) n u dir r of
        Some col \<Rightarrow> Inl (''constraint failed: UNIQUE constraint failed: cameras.'' @ col @ '' (2067)'')
      | None \<Rightarrow>
          let i = nextId d;
              row = \<lparr>c_id = i, c_name = n, c_url = u, c_output_dir = dir,
                     c_restream_url = r, c_username = usr, c_password = pw\<rparr>
          in Inr (d\<lparr>cameras := cameras d @ [row], seq := i\<rparr>, i))"

text \<open>
  \<open>addCamera\<close>, the handler of the control command. \<open>json.Unmarshal\<close> into a zero
  \<open>Camera\<close> is the parameter \<open>unmarshal\<close>: the error text, or the struct it filled.
  The insert binds the Go strings \<open>cam.Restream.String\<close>, \<open>cam.Username.String\<close> and
  \<open>cam.Password.String\<close>, so none of the three columns receives NULL. The result is
  the response and the store. (\<open>LastInsertId\<close> of this driver never fails, so the
  third failure response of the source has no branch here.)
\<close>

definition addCamera :: "(string \<Rightarrow> string + Camera) \<Rightarrow> string \<Rightarrow> DB \<Rightarrow> string \<times> DB" where
  \<open>addCamera unmarshal payload d =
     (case unmarshal payload of
        Inl err \<Rightarrow>
          (''{"status": "failure", "message": "Invalid JSON: '' @ err @ ''", "id": null}'', d)
      | Inr cam \<Rightarrow>
          (case insertCamera d (Name cam) (URL cam) (OutputDir cam)
                  (Some (String (Restream cam))) (Some (String (Username cam)))
                  (Some (String (Password cam))) of
             Inl err \<Rightarrow>
               (''{"status": "failure", "message": "Error adding camera: '' @ err @ ''", "id": null}'', d)
           | Inr (d', i) \<Rightarrow>
               (''{"status": "success", "message": "Camera created successfully", "id": "'' @ Itoa i @ ''"}'', d')))\<close>

text \<open>
  \<open>listCamerasString\<close>: \<open>SELECT id, name, url FROM cameras\<close>, one formatted line per
  row, each ended by a newline.
\<close>

definition cameraLine :: "CameraRow \<Rightarrow> string" where
  "cameraLine r = ''ID: '' @ Itoa (c_id r) @ '', Name: '' @ c_name r @ '', URL: '' @ c_url r @ ''\<newline>''"

definition listCamerasString :: "DB \<Rightarrow> string" where
  "listCamerasString d = concat (map cameraLine (cameras d))"

section \<open>Capture command builder\<close>

text \<open>
  The stream locator \<open>startWorker\<close> passes to the capture process. \<open>None\<close> is the
  run-time panic of \<open>parts[1]\<close> when the locator has no \<open>://\<close>.
\<close>

definition fullURL :: "Camera \<Rightarrow> string option" where
  "fullURL cam =
     (if Valid (Username cam) \<and> String (Username cam) \<noteq> [] then
        (case SplitN2 (URL cam) ''://'' of
           [p0, p1] \<Rightarrow>
             Some (p0 @ ''://'' @ String (Username cam) @ '':'' @ String (Password cam) @ ''@'' @ p1)
         | _ \<Rightarrow> None)
      else Some (URL cam))"

definition ffmpegArgs :: "Config \<Rightarrow> Camera \<Rightarrow> string \<Rightarrow> string list" where
  "ffmpegArgs cfg cam u =
     [''-i'', u, ''-c'', ''copy'', ''-f'', ''segment'',
      ''-segment_time'', Itoa (SegmentTime cfg), OutputDir cam @ ''/output_%03d.mp4'']
     @ (if Valid (Restream cam) then [''-f'', ''rtsp'', String (Restream cam)] else [])"

section \<open>Worker registry and supervisors\<close>

text \<open>
  An \<open>exec.Cmd\<close> is its argument vector (the program name first) and \<open>Process\<close>,
  which is nil (\<open>None\<close>) until the process has been started. A \<open>Worker\<close> points to its
  \<open>Cmd\<close> and to its stop channel; both live in stores of the state (\<open>cmds\<close>,
  \<open>chans\<close>), because the supervisor goroutine shares them with the registry. A
  channel is its closed flag.

  A supervisor goroutine is at \<open>cmd.Run()\<close> (\<open>AtRun\<close>), inside it waiting for the
  process it started (\<open>InWait pid\<close>), or has returned. \<open>sup_slept\<close> records the
  arguments of its \<open>time.Sleep\<close> calls, in nanoseconds.
\<close>

record Cmd =
  Args :: "string list"
  Process :: "nat option"

record Worker =
  cmd :: nat
  camera :: Camera
  stopCh :: nat

datatype SupPC = AtRun | InWait nat | Returned

record Sup =
  sup_cmd :: nat
  sup_stopCh :: nat
  sup_cam :: Camera
  sup_pc :: SupPC
  sup_slept :: "int list"

text \<open>
  The state of the program: its global variables (\<open>db\<close>, \<open>workers\<close>, \<open>workersMu\<close>,
  \<open>config\<close>), the objects they point to, the goroutines \<open>startWorker\<close> launched, the
  external processes that are alive (\<open>live\<close>) and what was printed. \<open>workers\<close> is a
  Go map: an association list with one entry per key. \<open>workersMu\<close> is true while the
  goroutine that is running holds the mutex; \<open>sync.Mutex\<close> is not reentrant, so a
  \<open>Lock\<close> by that goroutine then never returns.
\<close>

record NVR =
  db :: DB
  workers :: "(int \<times> Worker) list"
  workersMu :: bool
  config :: Config
  cmds :: "Cmd list"
  chans :: "bool list"
  sups :: "Sup list"
  live :: "nat set"
  next_pid :: nat
  stdout :: "string list"

datatype outcome = Done NVR | Panic string | Deadlock NVR

definition Lock :: "NVR \<Rightarrow> NVR option" where
  "Lock s = (if workersMu s then None else Some (s\<lparr>workersMu := True\<rparr>))"

definition Unlock :: "NVR \<Rightarrow> NVR" where
  "Unlock s = s\<lparr>workersMu := False\<rparr>"

definition print :: "string \<Rightarrow> NVR \<Rightarrow> NVR" where
  "print msg s = s\<lparr>stdout := stdout s @ [msg]\<rparr>"

text \<open>
  \<open>startWorker\<close>. The deferred \<open>Unlock\<close> runs on every way out. The new worker is
  put into the registry before the goroutine that will run the process is launched.
\<close>

definition startWorker :: "Camera \<Rightarrow> NVR \<Rightarrow> outcome" where
  "startWorker cam s =
     (case Lock s of
        None \<Rightarrow> Deadlock s
      | Some s1 \<Rightarrow>
          if map_of (workers s1) (ID cam) \<noteq> None then
            Done (Unlock (print (''Worker for '' @ Name cam @ '' already running\<newline>'') s1))
          else
            (case fullURL cam of
               None \<Rightarrow> Panic ''index out of range [1] with length 1''
             | Some u \<Rightarrow>
                 let c = \<lparr>Args = ''ffmpeg'' # ffmpegArgs (config s1) cam u, Process = None\<rparr>;
                     w = \<lparr>cmd = length (cmds s1), camera = cam, stopCh = length (chans s1)\<rparr>;
                     g = \<lparr>sup_cmd = cmd w, sup_stopCh = stopCh w, sup_cam = cam,
                          sup_pc = AtRun, sup_slept = []\<rparr>
                 in Done (Unlock (s1\<lparr>cmds := cmds s1 @ [c],
                                      chans := chans s1 @ [False],
                                      workers := AList.update (ID cam) w (workers s1),
                                      sups := sups s1 @ [g]\<rparr>))))"

text \<open>
  \<open>stopWorker\<close>: close the stop channel (closing a closed channel panics), kill the
  process if \<open>cmd.Process\<close> is not nil, delete the entry.
\<close>

definition stopWorker :: "int \<Rightarrow> NVR \<Rightarrow> outcome" where
  "stopWorker i s =
     (case Lock s of
        None \<Rightarrow> Deadlock s
      | Some s1 \<Rightarrow>
          (case map_of (workers s1) i of
             None \<Rightarrow> Done (Unlock s1)
           | Some w \<Rightarrow>
               if \<not> stopCh w < length (chans s1) then Panic ''close of nil channel''
               else if chans s1 ! stopCh w then Panic ''close of closed channel''
               else if \<not> cmd w < length (cmds s1) then Panic ''nil pointer dereference''
               else
                 let s2 = s1\<lparr>chans := (chans s1)[stopCh w := True]\<rparr>;
                     s3 = (case Process (cmds s2 ! cmd w) of
                             None \<Rightarrow> s2
                           | Some pid \<Rightarrow> s2\<lparr>live := live s2 - {pid}\<rparr>);
                     s4 = s3\<lparr>workers := AList.delete i (workers s3)\<rparr>
                 in Done (Unlock (print (''Stopped worker for camera '' @ Itoa i @ ''\<newline>'') s4))))"

text \<open>
  \<open>stopService\<close> takes the mutex and, still holding it, calls \<open>stopWorker\<close> for every
  key of the map; \<open>stopAll\<close> is that loop.
\<close>

fun stopAll :: "int list \<Rightarrow> NVR \<Rightarrow> outcome" where
  "stopAll [] s = Done s"
| "stopAll (i # is) s =
     (case stopWorker i s of
        Done s' \<Rightarrow> stopAll is s'
      | Panic m \<Rightarrow> Panic m
      | Deadlock s' \<Rightarrow> Deadlock s')"

definition stopService :: "NVR \<Rightarrow> outcome" where
  "stopService s =
     (case Lock s of
        None \<Rightarrow> Deadlock s
      | Some s1 \<Rightarrow>
          (case stopAll (map fst (workers s1)) s1 of
             Done s2 \<Rightarrow> Done (Unlock (print ''Service stopped.\<newline>'' s2))
           | Panic m \<Rightarrow> Panic m
           | Deadlock s' \<Rightarrow> Deadlock s'))"

text \<open>
  \<open>startService\<close> starts a worker for every row of the table. \<open>scan\<close> is
  \<open>rows.Scan\<close>: the \<open>Camera\<close> it leaves in \<open>cam\<close> for a row (the service discards
  the error of \<open>Scan\<close>).
\<close>

fun startAll :: "Camera list \<Rightarrow> NVR \<Rightarrow> outcome" where
  "startAll [] s = Done s"
| "startAll (cam # cams) s =
     (case startWorker cam s of
        Done s' \<Rightarrow> startAll cams s'
      | Panic m \<Rightarrow> Panic m
      | Deadlock s' \<Rightarrow> Deadlock s')"

definition startService :: "(CameraRow \<Rightarrow> Camera) \<Rightarrow> NVR \<Rightarrow> outcome" where
  "startService scan s =
     (case startAll (map scan (cameras (db s))) s of
        Done s' \<Rightarrow> Done (print ''Service started.\<newline>'' s')
      | Panic m \<Rightarrow> Panic m
      | Deadlock s' \<Rightarrow> Deadlock s')"

text \<open>
  The goroutine \<open>startWorker\<close> launches:
  \<^verbatim>\<open>for { err := cmd.Run(); if err != nil { print }; select { case <-stopCh: return;
  default: time.Sleep(time.Duration(config.RetryInterval) * time.Second) } }\<close>
  What the operating system does with a launch is an event given from outside: the
  spawn fails with an error, the process is spawned, or the process that runs exits
  and \<open>Wait\<close> returns its error (none for exit status 0). \<open>Run\<close> on a \<open>Cmd\<close> whose
  \<open>Process\<close> is set returns an error at once and spawns nothing. \<open>supStep k ev\<close> is
  one step of goroutine \<open>k\<close>; an event that does not apply leaves the state as it is
  (so does a step of a goroutine that was never launched, or whose \<open>Cmd\<close> is not in
  the store: \<open>startWorker\<close> allocates it before it launches the goroutine).
\<close>

datatype OSEvent = SpawnFails string | Spawns | Exits "string option"

text \<open>
  The argument of \<open>time.Sleep\<close>: a \<open>Duration\<close> is an \<open>int64\<close> of nanoseconds and
  \<open>time.Second\<close> is \<open>1000000000\<close>; the product wraps. \<open>paused\<close> is the time a
  \<open>Sleep\<close> takes: none for a zero or negative duration.
\<close>

definition sleepDuration :: "Config \<Rightarrow> int" where
  "sleepDuration cfg = wrap64 (wrap64 (RetryInterval cfg) * 1000000000)"

definition paused :: "int \<Rightarrow> int" where
  "paused d = (if d \<le> 0 then 0 else d)"

definition afterRun :: "nat \<Rightarrow> string option \<Rightarrow> NVR \<Rightarrow> NVR" where
  "afterRun k err s =
     (let g = sups s ! k;
          s1 = (case err of
                  None \<Rightarrow> s
                | Some e \<Rightarrow>
                    print (''Worker for '' @ Name (sup_cam g) @ '' failed: '' @ e @ ''. Retrying...\<newline>'') s)
      in if sup_stopCh g < length (chans s1) \<and> chans s1 ! sup_stopCh g then
           s1\<lparr>sups := (sups s1)[k := g\<lparr>sup_pc := Returned\<rparr>]\<rparr>
         else
           s1\<lparr>sups := (sups s1)[k := g\<lparr>sup_pc := AtRun,
                                         sup_slept := sup_slept g @ [sleepDuration (config s1)]\<rparr>]\<rparr>)"

definition supStep :: "nat \<Rightarrow> OSEvent \<Rightarrow> NVR \<Rightarrow> NVR" where
  "supStep k ev s =
     (if \<not> k < length (sups s) then s
      else
        let g = sups s ! k in
        (case sup_pc g of
           Returned \<Rightarrow> s
         | AtRun \<Rightarrow>
             if \<not> sup_cmd g < length (cmds s) then s
             else
               (case Process (cmds s ! sup_cmd g) of
                  Some p \<Rightarrow> afterRun k (Some ''exec: already started'') s
                | None \<Rightarrow>
                    (case ev of
                       SpawnFails e \<Rightarrow> afterRun k (Some e) s
                     | Spawns \<Rightarrow>
                         s\<lparr>cmds := (cmds s)[sup_cmd g := (cmds s ! sup_cmd g)\<lparr>Process := Some (next_pid s)\<rparr>],
                           live := insert (next_pid s) (live s),
                           next_pid := Suc (next_pid s),
                           sups := (sups s)[k := g\<lparr>sup_pc := InWait (next_pid s)\<rparr>]\<rparr>
                     | Exits e \<Rightarrow> s))
         | InWait p \<Rightarrow>
             (case ev of
                Exits e \<Rightarrow> afterRun k e (s\<lparr>live := live s - {p}\<rparr>)
              | _ \<Rightarrow> s)))"

fun supRun :: "nat \<Rightarrow> OSEvent list \<Rightarrow> NVR \<Rightarrow> NVR" where
  "supRun k [] s = s"
| "supRun k (ev # evs) s = supRun k evs (supStep k ev s)"

section \<open>Control server\<close>

text \<open>The verb \<open>%+v\<close> on the \<open>Config\<close> struct.\<close>

definition showConfig :: "Config \<Rightarrow> string" where
  "showConfig cfg =
     ''{SegmentTime:'' @ Itoa (SegmentTime cfg) @ '' RetryInterval:'' @ Itoa (RetryInterval cfg)
       @ '' MaxBackoff:'' @ Itoa (MaxBackoff cfg) @ ''}''"

text \<open>
  \<open>handleCLICommand\<close> answers with a response (and the state it leaves), or the
  goroutine panics, which ends the program, or it blocks for ever.
\<close>

datatype reply = Resp string NVR | Crash string | Hang NVR

definition handleCLICommand ::
  "(string \<Rightarrow> string + Camera) \<Rightarrow> (CameraRow \<Rightarrow> Camera) \<Rightarrow> string \<Rightarrow> NVR \<Rightarrow> reply" where
  "handleCLICommand unmarshal scan cmdline s =
     (let parts = SplitN2 cmdline ''|'' in
      if hd parts = ''list'' then Resp (listCamerasString (db s)) s
      else if hd parts = ''start'' then
        (case startService scan s of
           Done s' \<Rightarrow> Resp ''Service started.'' s'
         | Panic m \<Rightarrow> Crash m
         | Deadlock s' \<Rightarrow> Hang s')
      else if hd parts = ''stop'' then
        (case stopService s of
           Done s' \<Rightarrow> Resp ''Service stopped.'' s'
         | Panic m \<Rightarrow> Crash m
         | Deadlock s' \<Rightarrow> Hang s')
      else if hd parts = ''config'' then Resp (''Current config: '' @ showConfig (config s)) s
      else if hd parts = ''addCamera'' then
        (case parts of
           [p0, p1] \<Rightarrow>
             (case addCamera unmarshal p1 (db s) of (r, d') \<Rightarrow> Resp r (s\<lparr>db := d'\<rparr>))
         | _ \<Rightarrow> Crash ''index out of range [1] with length 1'')
      else Resp ''Unknown command'' s)"

text \<open>
  \<open>handleCLIConn\<close>: the lines are those \<open>ReadString\<close> delivers before its first
  error, each with its newline. The result is what was written to the connection,
  one element per \<open>conn.Write\<close>, and how the handler ended.
\<close>

datatype conn_end = Closed NVR | Crashed string | Hung NVR

fun handleCLIConn ::
  "(string \<Rightarrow> string + Camera) \<Rightarrow> (CameraRow \<Rightarrow> Camera) \<Rightarrow> string list \<Rightarrow> NVR
     \<Rightarrow> string list \<times> conn_end" where
  "handleCLIConn unmarshal scan [] s = ([], Closed s)"
| "handleCLIConn unmarshal scan (line # rest) s =
     (case handleCLICommand unmarshal scan (TrimSpace line) s of
        Resp response s' \<Rightarrow>
          (case handleCLIConn unmarshal scan rest s' of
             (ws, e) \<Rightarrow> ((response @ ''\<newline>'') # ws, e))
      | Crash m \<Rightarrow> ([], Crashed m)
      | Hang s' \<Rightarrow> ([], Hung s'))"

section \<open>Reachable registries\<close>

text \<open>
  The state in which \<open>main\<close> leaves the program, and the invariant of the registry:
  one entry per key, every worker has its own stop channel, which is open, and its
  \<open>Cmd\<close>.
\<close>

definition initial :: "DB \<Rightarrow> Config \<Rightarrow> NVR" where
  "initial d cfg =
     \<lparr>db = d, workers = [], workersMu = False, config = cfg, cmds = [], chans = [],
      sups = [], live = {}, next_pid = 0, stdout = []\<rparr>"

definition wf :: "NVR \<Rightarrow> bool" where
  "wf s \<longleftrightarrow>
     distinct (map fst (workers s)) \<and>
     distinct (map (\<lambda>(k, w). stopCh w) (workers s)) \<and>
     list_all (\<lambda>(k, w). cmd w < length (cmds s) \<and> stopCh w < length (chans s)
                 \<and> \<not> chans s ! stopCh w) (workers s)"

text \<open>How a response is recognised, and the number of newline bytes of a text.\<close>

definition isFailure :: "string \<Rightarrow> bool" where
  \<open>isFailure r \<longleftrightarrow>
     (let p = ''{"status": "failure", "message": "''; q = ''", "id": null}''
      in length p + length q \<le> length r \<and> take (length p) r = p
           \<and> drop (length r - length q) r = q)\<close>

definition isSuccess :: "string \<Rightarrow> int \<Rightarrow> bool" where
  \<open>isSuccess r i \<longleftrightarrow>
     r = ''{"status": "success", "message": "Camera created successfully", "id": "'' @ Itoa i @ ''"}''\<close>

definition newlines :: "string \<Rightarrow> nat" where
  "newlines t = length (filter (\<lambda>c. c = CHR 0x0A) t)"

section \<open>Example values\<close>

text \<open>
  Concrete inputs for the closed theorems below: the configuration \<open>loadConfig\<close>
  installs when the table is empty, payloads of the control command with the structs
  the JSON decoder fills from them (\<open>decodeExamples\<close> rejects every other text),
  stores whose rows are as the interactive \<open>addCameraCLI\<close> inserts them (empty
  credentials, NULL restream), and the states the service reaches from them.

  \<open>scanRow\<close> is \<open>rows.Scan\<close> as it behaves in \<open>startService\<close> with the structs
  above: it stores the first four columns and fails at the fifth, because
  \<open>JSONNullString\<close> is declared as a new type from \<open>sql.NullString\<close> and so has
  no \<open>Scan\<close> method of its own; \<open>startService\<close> discards the error, and the
  username, password and restream of \<open>cam\<close> stay null.
\<close>

definition nullString :: JSONNullString where
  "nullString = \<lparr>String = [], Valid = False\<rparr>"

definition defaultConfig :: Config where
  "defaultConfig = \<lparr>SegmentTime = 300, RetryInterval = 10, MaxBackoff = 60\<rparr>"

definition emptyDB :: DB where
  "emptyDB = \<lparr>cameras = [], seq = 0\<rparr>"

definition payloadFront :: string where
  \<open>payloadFront = ''{"name": "front", "url": "rtsp://cam1/s", "output_dir": "/rec/front", "restream": null, "username": null, "password": null}''\<close>

definition payloadBack :: string where
  \<open>payloadBack = ''{"name": "back", "url": "rtsp://cam2/s", "output_dir": "/rec/back", "restream": null, "username": null, "password": null}''\<close>

definition payloadPorch :: string where
  \<open>payloadPorch = ''{"name": "porch", "url": "rtsp://cam3/s", "output_dir": "/rec/porch", "restream": "rtsp://relay/live", "username": "admin", "password": null}''\<close>

definition payloadDoor :: string where
  \<open>payloadDoor = ''{"name": "door", "url": "rtsp://cam4/s", "output_dir": "/rec/door", "restream": "rtsp://relay/live", "username": null, "password": null}''\<close>

definition payloadYard :: string where
  \<open>payloadYard = ''{"name": "yard", "url": "rtsp://cam5/s", "output_dir": "/rec/yard", "restream": null, "username": null, "password": null}''\<close>

definition camFront :: Camera where
  "camFront = \<lparr>ID = 0, Name = ''front'', URL = ''rtsp://cam1/s'', OutputDir = ''/rec/front'',
               Username = nullString, Password = nullString, Restream = nullString\<rparr>"

definition camBack :: Camera where
  "camBack = \<lparr>ID = 0, Name = ''back'', URL = ''rtsp://cam2/s'', OutputDir = ''/rec/back'',
              Username = nullString, Password = nullString, Restream = nullString\<rparr>"

definition camPorch :: Camera where
  "camPorch = \<lparr>ID = 0, Name = ''porch'', URL = ''rtsp://cam3/s'', OutputDir = ''/rec/porch'',
              Username = \<lparr>String = ''admin'', Valid = True\<rparr>, Password = nullString,
              Restream = \<lparr>String = ''rtsp://relay/live'', Valid = True\<rparr>\<rparr>"

definition camDoor :: Camera where
  "camDoor = \<lparr>ID = 0, Name = ''door'', URL = ''rtsp://cam4/s'', OutputDir = ''/rec/door'',
              Username = nullString, Password = nullString,
              Restream = \<lparr>String = ''rtsp://relay/live'', Valid = True\<rparr>\<rparr>"

definition camYard :: Camera where
  "camYard = \<lparr>ID = 0, Name = ''yard'', URL = ''rtsp://cam5/s'', OutputDir = ''/rec/yard'',
              Username = nullString, Password = nullString, Restream = nullString\<rparr>"

definition decodeExamples :: "string \<Rightarrow> string + Camera" where
  "decodeExamples p =
     (if p = payloadFront then Inr camFront
      else if p = payloadBack then Inr camBack
      else if p = payloadPorch then Inr camPorch
      else if p = payloadDoor then Inr camDoor
      else if p = payloadYard then Inr camYard
      else Inl ''invalid character 'i' looking for beginning of value'')"

definition scanRow :: "CameraRow \<Rightarrow> Camera" where
  "scanRow r =
     \<lparr>ID = c_id r, Name = c_name r, URL = c_url r, OutputDir = c_output_dir r,
      Username = nullString, Password = nullString, Restream = nullString\<rparr>"

definition rowFront :: CameraRow where
  "rowFront = \<lparr>c_id = 1, c_name = ''front'', c_url = ''rtsp://cam1/s'', c_output_dir = ''/rec/front'',
                c_restream_url = None, c_username = Some [], c_password = Some []\<rparr>"

definition rowBack :: CameraRow where
  "rowBack = \<lparr>c_id = 2, c_name = ''back'', c_url = ''rtsp://cam2/s'', c_output_dir = ''/rec/back'',
               c_restream_url = None, c_username = Some [], c_password = Some []\<rparr>"

definition storeFront :: DB where
  "storeFront = \<lparr>cameras = [rowFront], seq = 1\<rparr>"

definition storeTwo :: DB where
  "storeTwo = \<lparr>cameras = [rowFront, rowBack], seq = 2\<rparr>"

definition hugeConfig :: Config where
  "hugeConfig = \<lparr>SegmentTime = 300, RetryInterval = 9223372037, MaxBackoff = 9223372037\<rparr>"


definition addBackLine :: string where
  "addBackLine = ''addCamera|'' @ payloadBack @ ''\<newline>''"

definition frontStarted :: NVR where
  "frontStarted =
     \<lparr>db = storeFront,
      workers = [(1, \<lparr>cmd = 0, camera = scanRow rowFront, stopCh = 0\<rparr>)],
      workersMu = False,
      config = defaultConfig,
      cmds = [\<lparr>Args = [''ffmpeg'', ''-i'', ''rtsp://cam1/s'', ''-c'', ''copy'', ''-f'', ''segment'',
                       ''-segment_time'', ''300'', ''/rec/front/output_%03d.mp4''],
               Process = None\<rparr>],
      chans = [False],
      sups = [\<lparr>sup_cmd = 0, sup_stopCh = 0, sup_cam = scanRow rowFront, sup_pc = AtRun, sup_slept = []\<rparr>],
      live = {}, next_pid = 0, stdout = []\<rparr>"

definition frontRunning :: NVR where
  "frontRunning =
     frontStarted\<lparr>cmds := [\<lparr>Args = [''ffmpeg'', ''-i'', ''rtsp://cam1/s'', ''-c'', ''copy'', ''-f'', ''segment'',
                       ''-segment_time'', ''300'', ''/rec/front/output_%03d.mp4''],
                              Process = Some 0\<rparr>],
                  sups := [\<lparr>sup_cmd = 0, sup_stopCh = 0, sup_cam = scanRow rowFront, sup_pc = InWait 0,
                             sup_slept = []\<rparr>],
                  live := {0}, next_pid := 1\<rparr>"

definition frontExited :: NVR where
  "frontExited =
     frontRunning\<lparr>sups := [\<lparr>sup_cmd = 0, sup_stopCh = 0, sup_cam = scanRow rowFront, sup_pc = AtRun,
                             sup_slept = [10000000000]\<rparr>],
                  live := {},
                  stdout := [''Worker for front failed: exit status 1. Retrying...\<newline>'']\<rparr>"

section \<open>Facts about the library functions and the store\<close>




lemma isFailure_wrap:
  \<open>isFailure (''{"status": "failure", "message": "'' @ m @ ''", "id": null}'')\<close>
  by (simp add: isFailure_def)

lemma digits_numeric: "set (digits n) \<subseteq> set ''0123456789''"
proof (induction n rule: digits.induct)
  case (1 n)
  have m: "''0123456789'' ! (k mod 10) \<in> set ''0123456789''" for k :: nat
    by (rule nth_mem) simp
  show ?case
  proof (cases "n < 10")
    case True
    then have "n mod 10 = n" by simp
    with m[of n] True show ?thesis by (subst digits.simps) simp
  next
    case False
    with 1 m[of n] show ?thesis by (subst digits.simps) simp
  qed
qed

lemma Itoa_numeric: "0 \<le> i \<Longrightarrow> set (Itoa i) \<subseteq> set ''0123456789''"
  using digits_numeric[of "nat i"] by (simp add: Itoa_def)

lemma fold_max_ge: "(a::int) \<le> fold max xs a"
proof (induction xs arbitrary: a)
  case Nil show ?case by simp
next
  case (Cons x xs)
  have "a \<le> max x a" by simp
  also have "\<dots> \<le> fold max xs (max x a)" by (rule Cons.IH)
  finally show ?case by simp
qed

lemma nextId_pos: "0 \<le> seq d \<Longrightarrow> 0 < nextId d"
  using fold_max_ge[of "seq d" "map c_id (cameras d)"] by (simp add: nextId_def)

lemma insertCamera_dup:
  assumes "n \<in> c_name ` set (cameras d) \<or> u \<in> c_url ` set (cameras d) \<or> dir \<in> c_output_dir ` set (cameras d)"
  shows "\<exists>e. insertCamera d n u dir r usr pw = Inl e"
  using assms by (auto simp: insertCamera_def uniqueViolation_def)

lemma insertCamera_ok:
  assumes "n \<notin> c_name ` set (cameras d)" "u \<notin> c_url ` set (cameras d)" "dir \<notin> c_output_dir ` set (cameras d)"
     "Some r \<notin> c_restream_url ` set (cameras d)"
  shows "insertCamera d n u dir (Some r) usr pw =
     Inr (d\<lparr>cameras := cameras d @ [\<lparr>c_id = nextId d, c_name = n, c_url = u, c_output_dir = dir,
                     c_restream_url = Some r, c_username = usr, c_password = pw\<rparr>], seq := nextId d\<rparr>, nextId d)"
  using assms by (auto simp: insertCamera_def uniqueViolation_def Let_def)

lemma addCamera_ok:
  assumes "unmarshal payload = Inr cam"
    and "Name cam \<notin> c_name ` set (cameras d)" and "URL cam \<notin> c_url ` set (cameras d)"
    and "OutputDir cam \<notin> c_output_dir ` set (cameras d)"
    and "Some (String (Restream cam)) \<notin> c_restream_url ` set (cameras d)"
  shows \<open>addCamera unmarshal payload d =
           (''{"status": "success", "message": "Camera created successfully", "id": "'' @ Itoa (nextId d) @ ''"}'',
            d\<lparr>cameras := cameras d @ [\<lparr>c_id = nextId d, c_name = Name cam, c_url = URL cam,
                     c_output_dir = OutputDir cam, c_restream_url = Some (String (Restream cam)),
                     c_username = Some (String (Username cam)), c_password = Some (String (Password cam))\<rparr>],
                seq := nextId d\<rparr>)\<close>
  using assms(1) insertCamera_ok[OF assms(2-5)] by (simp add: addCamera_def)

lemma split_addCamera: "SplitN2 (''addCamera|'' @ payload) ''|'' = [''addCamera'', payload]"
  by (simp add: SplitN2_def)

lemma split_list: "SplitN2 ''list'' ''|'' = [''list'']"
  by (simp add: SplitN2_def)

lemma newlines_append: "newlines (a @ b) = newlines a + newlines b"
  by (simp add: newlines_def)

lemma newlines_cameraLine: "1 \<le> newlines (cameraLine r)"
  by (simp add: cameraLine_def newlines_append) (simp add: newlines_def)

lemma newlines_list: "length (cameras d) \<le> newlines (listCamerasString d)"
proof -
  have "length rows \<le> newlines (concat (map cameraLine rows))" for rows
  proof (induction rows)
    case Nil show ?case by (simp add: newlines_def)
  next
    case (Cons r rows)
    with newlines_cameraLine[of r] show ?case by (simp add: newlines_append)
  qed
  then show ?thesis by (simp add: listCamerasString_def)
qed

section \<open>Facts about the registry\<close>

text \<open>
  \<open>startWorker\<close> and \<open>stopWorker\<close> by cases, called by a goroutine that does not
  hold the mutex. The invariant \<open>wf\<close> holds in the initial state and every
  operation keeps it, so a registered worker's channel is open when \<open>stopWorker\<close>
  closes it.
\<close>

lemma unlock_free: "\<not> workersMu s \<Longrightarrow> s\<lparr>workersMu := False\<rparr> = s"
  by (cases s) simp

lemma update_absent: "map_of al k = None \<Longrightarrow> AList.update k v al = al @ [(k, v)]"
  by (induction al) (auto split: if_splits)

lemma startWorker_existing:
  assumes "\<not> workersMu s" and "map_of (workers s) (ID cam) = Some w"
  shows "startWorker cam s =
           Done (s\<lparr>stdout := stdout s @ [''Worker for '' @ Name cam @ '' already running\<newline>'']\<rparr>)"
  using assms unlock_free[OF assms(1)]
  by (cases s) (simp add: startWorker_def Lock_def Unlock_def print_def)

lemma startWorker_new:
  assumes "\<not> workersMu s" and "map_of (workers s) (ID cam) = None" and "fullURL cam = Some u"
  shows "startWorker cam s =
     Done (s\<lparr>cmds := cmds s @ [\<lparr>Args = ''ffmpeg'' # ffmpegArgs (config s) cam u, Process = None\<rparr>],
             chans := chans s @ [False],
             workers := workers s @ [(ID cam, \<lparr>cmd = length (cmds s), camera = cam, stopCh = length (chans s)\<rparr>)],
             sups := sups s @ [\<lparr>sup_cmd = length (cmds s), sup_stopCh = length (chans s), sup_cam = cam,
                                sup_pc = AtRun, sup_slept = []\<rparr>]\<rparr>)"
  using assms
  by (cases s) (simp add: startWorker_def Lock_def Unlock_def Let_def update_absent)

lemma startWorker_panics:
  assumes "\<not> workersMu s" and "map_of (workers s) (ID cam) = None" and "fullURL cam = None"
  shows "startWorker cam s = Panic ''index out of range [1] with length 1''"
  using assms by (simp add: startWorker_def Lock_def)

lemma stopWorker_absent:
  assumes "\<not> workersMu s" and "map_of (workers s) i = None"
  shows "stopWorker i s = Done s"
  using assms by (cases s) (simp add: stopWorker_def Lock_def Unlock_def)

lemma wf_entry:
  assumes "wf s" and "map_of (workers s) i = Some w"
  shows "cmd w < length (cmds s) \<and> stopCh w < length (chans s) \<and> \<not> chans s ! stopCh w"
proof -
  from assms(2) have "(i, w) \<in> set (workers s)" by (rule map_of_SomeD)
  with assms(1) show ?thesis by (auto simp: wf_def list_all_iff)
qed

lemma stopWorker_present:
  assumes "\<not> workersMu s" and "wf s" and "map_of (workers s) i = Some w"
  shows "\<exists>s1. stopWorker i s = Done s1 \<and> workers s1 = AList.delete i (workers s) \<and> \<not> workersMu s1
     \<and> chans s1 = (chans s)[stopCh w := True]
     \<and> cmds s1 = cmds s
     \<and> live s1 = (case Process (cmds s ! cmd w) of None \<Rightarrow> live s | Some pid \<Rightarrow> live s - {pid})"
  using assms(1,3) wf_entry[OF assms(2,3)]
  by (simp add: stopWorker_def Lock_def Unlock_def print_def Let_def split: option.splits)

lemma wf_initial: "wf (initial d cfg)"
  by (simp add: wf_def initial_def)

lemma wf_startWorker:
  assumes "wf s" and "startWorker cam s = Done s'"
  shows "wf s'"
proof (cases "workersMu s")
  case True
  with assms(2) show ?thesis by (simp add: startWorker_def Lock_def)
next
  case free: False
  show ?thesis
  proof (cases "map_of (workers s) (ID cam)")
    case (Some w)
    from startWorker_existing[OF free Some] assms(2)
    have "workers s' = workers s" "cmds s' = cmds s" "chans s' = chans s" by auto
    with assms(1) show ?thesis by (simp add: wf_def)
  next
    case None
    show ?thesis
    proof (cases "fullURL cam")
      case nourl: None
      from startWorker_panics[OF free None nourl] assms(2) show ?thesis by simp
    next
      case (Some u)
      from None have fresh: "ID cam \<notin> fst ` set (workers s)" by (simp add: map_of_eq_None_iff)
      from assms(1) have old: "\<forall>(k, w) \<in> set (workers s). cmd w < length (cmds s) \<and> stopCh w < length (chans s) \<and> \<not> chans s ! stopCh w"
        by (simp add: wf_def list_all_iff)
      then have ch: "length (chans s) \<notin> (\<lambda>(k, w). stopCh w) ` set (workers s)" by fastforce
      from startWorker_new[OF free None Some] assms(2) have s': "s' = s\<lparr>cmds := cmds s @ [\<lparr>Args = ''ffmpeg'' # ffmpegArgs (config s) cam u, Process = None\<rparr>],
             chans := chans s @ [False],
             workers := workers s @ [(ID cam, \<lparr>cmd = length (cmds s), camera = cam, stopCh = length (chans s)\<rparr>)],
             sups := sups s @ [\<lparr>sup_cmd = length (cmds s), sup_stopCh = length (chans s), sup_cam = cam,
                                sup_pc = AtRun, sup_slept = []\<rparr>]\<rparr>" by simp
      show ?thesis
        unfolding s' wf_def using assms(1) fresh ch old
        by (auto simp: wf_def list_all_iff nth_append)
    qed
  qed
qed

lemma wf_stopWorker:
  assumes "wf s" and "stopWorker i s = Done s'"
  shows "wf s'"
proof (cases "workersMu s")
  case True
  with assms(2) show ?thesis by (simp add: stopWorker_def Lock_def)
next
  case free: False
  show ?thesis
  proof (cases "map_of (workers s) i")
    case None
    from stopWorker_absent[OF free None] assms show ?thesis by simp
  next
    case (Some w)
    from stopWorker_present[OF free assms(1) Some] assms(2)
    have s': "workers s' = AList.delete i (workers s)" "chans s' = (chans s)[stopCh w := True]" "cmds s' = cmds s"
      by auto
    from Some have mem: "(i, w) \<in> set (workers s)" by (rule map_of_SomeD)
    from assms(1) have inj: "inj_on (\<lambda>(k, w). stopCh w) (set (workers s))"
      by (simp add: wf_def distinct_map)
    have other: "stopCh w' \<noteq> stopCh w" if "(k, w') \<in> set (workers s)" "k \<noteq> i" for k w'
      using inj_onD[OF inj _ that(1) mem] that(2) by auto
    from assms(1) have old: "\<forall>(k, w) \<in> set (workers s). cmd w < length (cmds s) \<and> stopCh w < length (chans s) \<and> \<not> chans s ! stopCh w"
      by (simp add: wf_def list_all_iff)
    have d1: "distinct (map fst (AList.delete i (workers s)))"
      using assms(1) by (simp add: wf_def distinct_delete)
    have d2: "distinct (map (\<lambda>(k, w). stopCh w) (AList.delete i (workers s)))"
      using assms(1) by (simp add: wf_def AList.delete_eq distinct_map_filter)
    have d3: "list_all (\<lambda>(k, w'). cmd w' < length (cmds s) \<and> stopCh w' < length ((chans s)[stopCh w := True])
                 \<and> \<not> (chans s)[stopCh w := True] ! stopCh w') (AList.delete i (workers s))"
      unfolding list_all_iff
    proof (clarify)
      fix k w' assume in_del: "(k, w') \<in> set (AList.delete i (workers s))"
      then have in_old: "(k, w') \<in> set (workers s)" and ne: "k \<noteq> i"
        by (auto simp: AList.delete_eq)
      from old in_old have o: "cmd w' < length (cmds s)" "stopCh w' < length (chans s)" "\<not> chans s ! stopCh w'"
        by auto
      from other[OF in_old ne] have "stopCh w' \<noteq> stopCh w" .
      with o show "cmd w' < length (cmds s) \<and> stopCh w' < length ((chans s)[stopCh w := True])
                 \<and> \<not> (chans s)[stopCh w := True] ! stopCh w'"
        by simp
    qed
    from d1 d2 d3 s' show ?thesis by (simp add: wf_def)
  qed
qed

text \<open>
  \<open>stopService\<close> returns only when it finds the registry empty: with an entry to
  stop, the \<open>Lock\<close> inside \<open>stopWorker\<close> meets the mutex \<open>stopService\<close> holds.
\<close>

lemma stopService_cases:
  "stopService s =
     (if workersMu s then Deadlock s
      else if workers s = [] then Done (print ''Service stopped.\<newline>'' s)
      else Deadlock (s\<lparr>workersMu := True\<rparr>))"
proof (cases "workers s")
  case Nil
  then show ?thesis
    by (cases s) (simp add: stopService_def Lock_def Unlock_def print_def)
next
  case (Cons e es)
  then show ?thesis
    by (simp add: stopService_def Lock_def stopWorker_def)
qed

lemma startAll_ok:
  assumes "\<not> workersMu s" and "\<forall>cam \<in> set cams. fullURL cam \<noteq> None"
  shows "\<exists>s'. startAll cams s = Done s' \<and> \<not> workersMu s'"
  using assms
proof (induction cams arbitrary: s)
  case Nil
  then show ?case by simp
next
  case (Cons cam cams)
  from Cons.prems(2) obtain u where u: "fullURL cam = Some u" by auto
  have "\<exists>s1. startWorker cam s = Done s1 \<and> \<not> workersMu s1"
  proof (cases "map_of (workers s) (ID cam)")
    case None
    from startWorker_new[OF Cons.prems(1) None u] Cons.prems(1) show ?thesis by simp
  next
    case (Some w)
    from startWorker_existing[OF Cons.prems(1) Some] Cons.prems(1) show ?thesis by simp
  qed
  then obtain s1 where s1: "startWorker cam s = Done s1" "\<not> workersMu s1" by blast
  from Cons.IH[OF s1(2)] Cons.prems(2) obtain s' where "startAll cams s1 = Done s'" "\<not> workersMu s'"
    by auto
  with s1(1) show ?case by simp
qed

section \<open>Facts about the supervisor\<close>

text \<open>
  A supervisor step changes neither the registry, the mutex, the store, the config
  nor the channels; every \<open>time.Sleep\<close> it makes has the argument
  \<open>sleepDuration\<close> of the config, which is the retry interval in nanoseconds as
  long as the product fits 64 bits.
\<close>

lemma afterRun_frame:
  "workers (afterRun k err s) = workers s \<and> workersMu (afterRun k err s) = workersMu s
   \<and> db (afterRun k err s) = db s \<and> config (afterRun k err s) = config s
   \<and> cmds (afterRun k err s) = cmds s \<and> chans (afterRun k err s) = chans s
   \<and> live (afterRun k err s) = live s \<and> length (sups (afterRun k err s)) = length (sups s)"
  by (simp add: afterRun_def Let_def print_def split: option.splits)

lemma supStep_frame:
  "workers (supStep k ev s) = workers s \<and> workersMu (supStep k ev s) = workersMu s
   \<and> db (supStep k ev s) = db s \<and> config (supStep k ev s) = config s
   \<and> chans (supStep k ev s) = chans s \<and> length (cmds (supStep k ev s)) = length (cmds s)
   \<and> length (sups (supStep k ev s)) = length (sups s)"
  by (simp add: supStep_def Let_def afterRun_frame split: SupPC.splits option.splits OSEvent.splits)


lemma wf_supStep: "wf s \<Longrightarrow> wf (supStep k ev s)"
  by (simp add: wf_def supStep_frame)

lemma afterRun_slept:
  "k < length (sups s) \<Longrightarrow>
   \<exists>n. sup_slept (sups (afterRun k err s) ! k) = sup_slept (sups s ! k) @ replicate n (sleepDuration (config s))"
proof -
  assume k: "k < length (sups s)"
  have r0: "\<exists>n. xs = xs @ replicate n d" for xs :: "int list" and d
    by (rule exI[of _ 0]) simp
  have r1: "\<exists>n. xs @ [d] = xs @ replicate n d" for xs :: "int list" and d
    by (rule exI[of _ 1]) simp
  have r2: "\<exists>n. [d] = replicate n d" for d :: int
    by (rule exI[of _ 1]) simp
  from k show ?thesis
    by (auto simp: afterRun_def Let_def print_def r0 r1 r2 split: option.splits)
qed

lemma supStep_slept:
  "\<exists>n. sup_slept (sups (supStep k ev s) ! k) = sup_slept (sups s ! k) @ replicate n (sleepDuration (config s))"
proof (cases "k < length (sups s)")
  case False
  then have "supStep k ev s = s" by (simp add: supStep_def)
  then show ?thesis by (intro exI[of _ 0]) simp
next
  case True
  have r0: "\<exists>n. xs = xs @ replicate n d" for xs :: "int list" and d
    by (rule exI[of _ 0]) simp
  from True afterRun_slept[OF True]
    afterRun_slept[of k "s\<lparr>live := live s - {p}\<rparr>" for p]
  show ?thesis
    by (auto simp: supStep_def Let_def r0 split: SupPC.splits option.splits OSEvent.splits)
qed

lemma supRun_slept:
  "\<exists>n. sup_slept (sups (supRun k evs s) ! k) = sup_slept (sups s ! k) @ replicate n (sleepDuration (config s))"
proof (induction evs arbitrary: s)
  case Nil
  show ?case by (intro exI[of _ 0]) simp
next
  case (Cons ev evs)
  from supStep_slept[of k ev s] obtain n where
    n: "sup_slept (sups (supStep k ev s) ! k) = sup_slept (sups s ! k) @ replicate n (sleepDuration (config s))"
    by blast
  from Cons.IH[of "supStep k ev s"] obtain m where
    m: "sup_slept (sups (supRun k evs (supStep k ev s)) ! k) =
          sup_slept (sups (supStep k ev s) ! k) @ replicate m (sleepDuration (config (supStep k ev s)))"
    by blast
  have c: "config (supStep k ev s) = config s" by (simp add: supStep_frame)
  show ?case
    by (intro exI[of _ "n + m"]) (simp add: m n c replicate_add)
qed

lemma supStep_no_respawn:
  assumes "k < length (sups s)" and "sup_cmd (sups s ! k) < length (cmds s)"
    and "Process (cmds s ! sup_cmd (sups s ! k)) = Some p"
    and "sup_pc (sups s ! k) = AtRun \<or> sup_pc (sups s ! k) = Returned"
  shows "live (supStep k ev s) = live s \<and> next_pid (supStep k ev s) = next_pid s
         \<and> cmds (supStep k ev s) = cmds s \<and> k < length (sups (supStep k ev s))
         \<and> sup_cmd (sups (supStep k ev s) ! k) = sup_cmd (sups s ! k)
         \<and> (sup_pc (sups (supStep k ev s) ! k) = AtRun \<or> sup_pc (sups (supStep k ev s) ! k) = Returned)"
proof -
  from assms(4) show ?thesis
  proof
    assume "sup_pc (sups s ! k) = AtRun"
    with assms(1-3) show ?thesis
      by (simp add: supStep_def afterRun_def Let_def print_def)
  next
    assume "sup_pc (sups s ! k) = Returned"
    with assms(1-3) show ?thesis
      by (simp add: supStep_def Let_def)
  qed
qed

lemma supRun_no_respawn:
  assumes "k < length (sups s)" and "sup_cmd (sups s ! k) < length (cmds s)"
    and "Process (cmds s ! sup_cmd (sups s ! k)) = Some p"
    and "sup_pc (sups s ! k) = AtRun \<or> sup_pc (sups s ! k) = Returned"
  shows "live (supRun k evs s) = live s \<and> next_pid (supRun k evs s) = next_pid s"
  using assms
proof (induction evs arbitrary: s)
  case Nil
  show ?case by simp
next
  case (Cons ev evs)
  from supStep_no_respawn[OF Cons.prems, of ev]
  have st: "live (supStep k ev s) = live s" "next_pid (supStep k ev s) = next_pid s"
      "cmds (supStep k ev s) = cmds s" "k < length (sups (supStep k ev s))"
      "sup_cmd (sups (supStep k ev s) ! k) = sup_cmd (sups s ! k)"
      "sup_pc (sups (supStep k ev s) ! k) = AtRun \<or> sup_pc (sups (supStep k ev s) ! k) = Returned"
    by blast+
  have "live (supRun k evs (supStep k ev s)) = live (supStep k ev s)
        \<and> next_pid (supRun k evs (supStep k ev s)) = next_pid (supStep k ev s)"
  proof (rule Cons.IH)
    show "k < length (sups (supStep k ev s))" by (rule st(4))
    show "sup_cmd (sups (supStep k ev s) ! k) < length (cmds (supStep k ev s))"
      using Cons.prems(2) st(3,5) by simp
    show "Process (cmds (supStep k ev s) ! sup_cmd (sups (supStep k ev s) ! k)) = Some p"
      using Cons.prems(3) st(3,5) by simp
    show "sup_pc (sups (supStep k ev s) ! k) = AtRun \<or> sup_pc (sups (supStep k ev s) ! k) = Returned"
      by (rule st(6))
  qed
  with st(1,2) show ?case by simp
qed

lemma sleepDuration_exact:
  assumes "0 \<le> RetryInterval cfg" and "RetryInterval cfg \<le> 9223372036"
  shows "sleepDuration cfg = RetryInterval cfg * 1000000000"
proof -
  have w: "wrap64 x = x" if "0 \<le> x" "x \<le> 9223372036000000000" for x
    using that by (simp add: wrap64_def)
  from assms have "wrap64 (RetryInterval cfg) = RetryInterval cfg" by (intro w) auto
  moreover from assms have "wrap64 (RetryInterval cfg * 1000000000) = RetryInterval cfg * 1000000000"
    by (intro w) auto
  ultimately show ?thesis by (simp add: sleepDuration_def)
qed

section \<open>Facts about the command handler\<close>

text \<open>
The branch \<open>handleCLICommand\<close> takes for each command word.
\<close>

lemma command_cases:
  fixes w :: string
  obtains (list) "w = ''list''" | (start) "w = ''start''" | (stop) "w = ''stop''"
      | (config) "w = ''config''" | (add) "w = ''addCamera''"
      | (other) "w \<notin> {''list'', ''start'', ''stop'', ''config'', ''addCamera''}"
  by (cases "w = ''list''"; cases "w = ''start''"; cases "w = ''stop''"; cases "w = ''config''"; cases "w = ''addCamera''") simp_all

lemma resp_list:
  assumes "hd (SplitN2 c ''|'') = ''list''"
  shows "handleCLICommand unmarshal scan c s = Resp (listCamerasString (db s)) s"
  using assms by (simp add: handleCLICommand_def Let_def)

lemma resp_config:
  assumes "hd (SplitN2 c ''|'') = ''config''"
  shows "handleCLICommand unmarshal scan c s = Resp (''Current config: '' @ showConfig (config s)) s"
  using assms by (simp add: handleCLICommand_def Let_def)

lemma resp_other:
  assumes "hd (SplitN2 c ''|'') \<notin> {''list'', ''start'', ''stop'', ''config'', ''addCamera''}"
  shows "handleCLICommand unmarshal scan c s = Resp ''Unknown command'' s"
  using assms by (simp add: handleCLICommand_def Let_def)

lemma resp_stop:
  assumes "hd (SplitN2 c ''|'') = ''stop''"
  shows "handleCLICommand unmarshal scan c s =
           (case stopService s of Done s' \<Rightarrow> Resp ''Service stopped.'' s' | Panic m \<Rightarrow> Crash m | Deadlock s' \<Rightarrow> Hang s')"
  using assms by (simp add: handleCLICommand_def Let_def)

lemma resp_start:
  assumes "hd (SplitN2 c ''|'') = ''start''"
  shows "handleCLICommand unmarshal scan c s =
           (case startService scan s of Done s' \<Rightarrow> Resp ''Service started.'' s' | Panic m \<Rightarrow> Crash m | Deadlock s' \<Rightarrow> Hang s')"
  using assms by (simp add: handleCLICommand_def Let_def)

lemma resp_add:
  assumes "hd (SplitN2 c ''|'') = ''addCamera''"
  shows "handleCLICommand unmarshal scan c s =
           (case SplitN2 c ''|'' of
              [p0, p1] \<Rightarrow> (case addCamera unmarshal p1 (db s) of (r, d') \<Rightarrow> Resp r (s\<lparr>db := d'\<rparr>))
            | _ \<Rightarrow> Crash ''index out of range [1] with length 1'')"
  using assms by (simp add: handleCLICommand_def Let_def)

section \<open>The example values evaluated\<close>

lemma trim_list: "TrimSpace ''list\<newline>'' = ''list''"
  by (simp add: TrimSpace_def spaces_def)

lemma trim_addCamera: "TrimSpace ''addCamera\<newline>'' = ''addCamera''"
  by (simp add: TrimSpace_def spaces_def)

lemma trim_stop: "TrimSpace ''stop\<newline>'' = ''stop''"
  by (simp add: TrimSpace_def spaces_def)

lemma trim_start: "TrimSpace '' start\<newline>'' = ''start''"
  by (simp add: TrimSpace_def spaces_def)

lemma trim_status: "TrimSpace ''status\<newline>'' = ''status''"
  by (simp add: TrimSpace_def spaces_def)

lemma decode_front: "decodeExamples payloadFront = Inr camFront"
  by (simp add: decodeExamples_def)

lemma decode_back: "decodeExamples payloadBack = Inr camBack"
  by (simp add: decodeExamples_def payloadFront_def payloadBack_def)

lemma decode_door: "decodeExamples payloadDoor = Inr camDoor"
  by (simp add: decodeExamples_def payloadFront_def payloadBack_def payloadPorch_def payloadDoor_def)

lemma decode_yard: "decodeExamples payloadYard = Inr camYard"
  by (simp add: decodeExamples_def payloadFront_def payloadBack_def payloadPorch_def payloadDoor_def payloadYard_def)

lemma add_front_empty:
  \<open>addCamera decodeExamples payloadFront emptyDB =
     (''{"status": "success", "message": "Camera created successfully", "id": "1"}'',
      \<lparr>cameras = [\<lparr>c_id = 1, c_name = ''front'', c_url = ''rtsp://cam1/s'', c_output_dir = ''/rec/front'',
                    c_restream_url = Some [], c_username = Some [], c_password = Some []\<rparr>], seq = 1\<rparr>)\<close>
  by (simp add: addCamera_def insertCamera_def uniqueViolation_def nextId_def Itoa_def digits.simps
        decodeExamples_def payloadFront_def camFront_def nullString_def emptyDB_def)

lemma add_porch_empty:
  \<open>addCamera decodeExamples payloadPorch emptyDB =
     (''{"status": "success", "message": "Camera created successfully", "id": "1"}'',
      \<lparr>cameras = [\<lparr>c_id = 1, c_name = ''porch'', c_url = ''rtsp://cam3/s'', c_output_dir = ''/rec/porch'',
                    c_restream_url = Some ''rtsp://relay/live'', c_username = Some ''admin'',
                    c_password = Some []\<rparr>], seq = 1\<rparr>)\<close>
  by (simp add: addCamera_def insertCamera_def uniqueViolation_def nextId_def Itoa_def digits.simps
        decodeExamples_def payloadFront_def payloadBack_def payloadPorch_def camPorch_def nullString_def emptyDB_def)

lemma frontStarted_reached:
  "startWorker (scanRow rowFront) (initial storeFront defaultConfig) = Done frontStarted"
  by (simp add: startWorker_def Lock_def Unlock_def initial_def scanRow_def rowFront_def nullString_def
        fullURL_def ffmpegArgs_def defaultConfig_def Itoa_def digits.simps Let_def frontStarted_def)

lemma frontRunning_reached: "supStep 0 Spawns frontStarted = frontRunning"
  by (simp add: supStep_def frontStarted_def frontRunning_def Let_def)

lemma frontExited_reached:
  "supRun 0 [Spawns, Exits (Some ''exit status 1'')] frontStarted = frontExited"
  by (simp add: supStep_def afterRun_def print_def Let_def frontStarted_def frontRunning_def
        frontExited_def scanRow_def rowFront_def defaultConfig_def sleepDuration_def wrap64_def)

lemma frontRunning_free: "\<not> workersMu frontRunning"
  by (simp add: frontRunning_def frontStarted_def)

lemma frontRunning_wf: "wf frontRunning"
  by (simp add: wf_def frontRunning_def frontStarted_def)

section \<open>The claims\<close>

subsection \<open>C1: stop empties the registry and leaves no process alive\<close>

text \<open>
  C1. After the \<open>stop\<close> command has returned its response the registry is empty and
  no process of a previously active worker is alive. The code does not do this: with
  the store holding one camera, \<open>start\<close> registers worker 1, its supervisor spawns
  process 0, and the \<open>stop\<close> command then never returns. It hangs holding the
  mutex, with worker 1 still registered and process 0 still alive.
\<close>

theorem stop_hangs_with_a_worker:
  "(case handleCLICommand decodeExamples scanRow ''start'' (initial storeFront defaultConfig) of
      Resp r s1 \<Rightarrow>
        r = ''Service started.'' \<and>
        (case handleCLICommand decodeExamples scanRow ''stop'' (supStep 0 Spawns s1) of
           Hang h \<Rightarrow> map_of (workers h) 1 \<noteq> None \<and> live h = {0} \<and> workersMu h
         | Resp r' s2 \<Rightarrow> False
         | Crash m \<Rightarrow> False)
    | Crash m \<Rightarrow> False
    | Hang h \<Rightarrow> False)"
  by (simp add: handleCLICommand_def SplitN2_def startService_def startWorker_def Lock_def Unlock_def
        print_def initial_def storeFront_def rowFront_def scanRow_def nullString_def fullURL_def Let_def
        supStep_def stopService_def stopWorker_def)

subsection \<open>C2: one response line per command line\<close>

text \<open>
  C2 as stated fails. With two cameras stored, the single write that answers
  \<open>list\<close> holds three newline bytes: one line per camera and an empty line. A
  line that is just \<open>addCamera\<close> makes the handler panic: nothing is written for
  it, nor for the line after it.
\<close>

theorem response_lines_counterexample:
  "handleCLIConn decodeExamples scanRow [''list\<newline>''] (initial storeTwo defaultConfig)
     = ([''ID: 1, Name: front, URL: rtsp://cam1/s\<newline>ID: 2, Name: back, URL: rtsp://cam2/s\<newline>\<newline>''],
        Closed (initial storeTwo defaultConfig))
   \<and> newlines ''ID: 1, Name: front, URL: rtsp://cam1/s\<newline>ID: 2, Name: back, URL: rtsp://cam2/s\<newline>\<newline>'' = 3
   \<and> handleCLIConn decodeExamples scanRow [''addCamera\<newline>'', ''config\<newline>''] (initial emptyDB defaultConfig)
     = ([], Crashed ''index out of range [1] with length 1'')"
  by (simp add: trim_list trim_addCamera handleCLICommand_def SplitN2_def listCamerasString_def cameraLine_def
        Itoa_def digits.simps newlines_def storeTwo_def rowFront_def rowBack_def initial_def)

text \<open>
  C2, amended. Let the mutex be free, and let the line be none of: \<open>addCamera\<close>
  without a separator, \<open>stop\<close> while a worker is registered, \<open>start\<close> over a
  stored camera whose locator cannot be built. Then the handler computes one
  response and writes it, followed by one newline, before it goes on to the lines
  that remain, and it leaves the mutex free. A command word that is not \<open>list\<close>,
  \<open>start\<close>, \<open>stop\<close>, \<open>config\<close> or \<open>addCamera\<close> gets the response
  \<open>Unknown command\<close> and leaves the state as it was. The response to \<open>list\<close>
  is the listing of the store, which holds at least one newline per stored camera.
\<close>

theorem handler_writes_one_response:
  assumes free: "\<not> workersMu s"
    and add: "hd (SplitN2 (TrimSpace line) ''|'') = ''addCamera'' \<longrightarrow> length (SplitN2 (TrimSpace line) ''|'') = 2"
    and stop: "hd (SplitN2 (TrimSpace line) ''|'') = ''stop'' \<longrightarrow> workers s = []"
    and start: "hd (SplitN2 (TrimSpace line) ''|'') = ''start'' \<longrightarrow> (\<forall>r \<in> set (cameras (db s)). fullURL (scan r) \<noteq> None)"
  shows "\<exists>r s' ws e.
           handleCLICommand unmarshal scan (TrimSpace line) s = Resp r s' \<and> \<not> workersMu s' \<and>
           handleCLIConn unmarshal scan rest s' = (ws, e) \<and>
           handleCLIConn unmarshal scan (line # rest) s = ((r @ ''\<newline>'') # ws, e) \<and>
           (hd (SplitN2 (TrimSpace line) ''|'') \<notin> {''list'', ''start'', ''stop'', ''config'', ''addCamera''}
              \<longrightarrow> r = ''Unknown command'' \<and> s' = s) \<and>
           (hd (SplitN2 (TrimSpace line) ''|'') = ''list''
              \<longrightarrow> r = listCamerasString (db s) \<and> s' = s \<and> length (cameras (db s)) \<le> newlines r)"
proof -
  let ?c = "TrimSpace line"
  let ?w = "hd (SplitN2 ?c ''|'')"
  have "\<exists>r s'. handleCLICommand unmarshal scan ?c s = Resp r s' \<and> \<not> workersMu s' \<and>
           (?w \<notin> {''list'', ''start'', ''stop'', ''config'', ''addCamera''} \<longrightarrow> r = ''Unknown command'' \<and> s' = s) \<and>
           (?w = ''list'' \<longrightarrow> r = listCamerasString (db s) \<and> s' = s \<and> length (cameras (db s)) \<le> newlines r)"
  proof (cases ?w rule: command_cases)
    case list
    from resp_list[OF list] free list show ?thesis by (simp add: newlines_list)
  next
    case start
    with assms(4) have "\<forall>cam \<in> set (map scan (cameras (db s))). fullURL cam \<noteq> None" by simp
    from startAll_ok[OF free this] obtain s1 where "startAll (map scan (cameras (db s))) s = Done s1" "\<not> workersMu s1"
      by blast
    with resp_start[OF start, of unmarshal scan s] start show ?thesis by (simp add: startService_def print_def)
  next
    case stop
    with assms(3) free have "stopService s = Done (print ''Service stopped.\<newline>'' s)"
      by (simp add: stopService_cases)
    with resp_stop[OF stop, of unmarshal scan s] free stop show ?thesis by (simp add: print_def)
  next
    case config
    from resp_config[OF config] free config show ?thesis by simp
  next
    case add
    with assms(2) obtain p0 p1 where "SplitN2 ?c ''|'' = [p0, p1]"
      by (cases "SplitN2 ?c ''|''") (auto simp: length_Suc_conv)
    with resp_add[OF add, of unmarshal scan s] add free show ?thesis
      by (simp split: prod.splits)
  next
    case other
    from resp_other[OF other] free other show ?thesis by simp
  qed
  then obtain r s' where r: "handleCLICommand unmarshal scan ?c s = Resp r s'" "\<not> workersMu s'"
    "?w \<notin> {''list'', ''start'', ''stop'', ''config'', ''addCamera''} \<longrightarrow> r = ''Unknown command'' \<and> s' = s"
    "?w = ''list'' \<longrightarrow> r = listCamerasString (db s) \<and> s' = s \<and> length (cameras (db s)) \<le> newlines r"
    by blast
  obtain ws e where we: "handleCLIConn unmarshal scan rest s' = (ws, e)" by (cases "handleCLIConn unmarshal scan rest s'")
  with r(1) have "handleCLIConn unmarshal scan (line # rest) s = ((r @ ''\<newline>'') # ws, e)" by simp
  with r we show ?thesis by blast
qed

theorem handler_writes_one_response_witness:
  "\<not> workersMu (initial storeFront defaultConfig)
   \<and> hd (SplitN2 (TrimSpace ''stop\<newline>'') ''|'') = ''stop'' \<and> workers (initial storeFront defaultConfig) = []
   \<and> hd (SplitN2 (TrimSpace '' start\<newline>'') ''|'') = ''start''
   \<and> cameras (db (initial storeFront defaultConfig)) = [rowFront] \<and> fullURL (scanRow rowFront) \<noteq> None
   \<and> hd (SplitN2 (TrimSpace addBackLine) ''|'') = ''addCamera''
   \<and> length (SplitN2 (TrimSpace addBackLine) ''|'') = 2
   \<and> (\<exists>s' ws e. handleCLIConn decodeExamples scanRow [''stop\<newline>'', ''list\<newline>''] (initial storeFront defaultConfig)
                    = (''Service stopped.\<newline>'' # ws, e)
                  \<and> handleCLIConn decodeExamples scanRow [''list\<newline>''] s' = (ws, e))
   \<and> (\<exists>s' ws e. handleCLIConn decodeExamples scanRow ['' start\<newline>'', ''stop\<newline>''] (initial storeFront defaultConfig)
                    = (''Service started.\<newline>'' # ws, e)
                  \<and> handleCLIConn decodeExamples scanRow [''stop\<newline>''] s' = (ws, e))
   \<and> (\<exists>r s' ws e. handleCLIConn decodeExamples scanRow [addBackLine, ''list\<newline>''] (initial storeFront defaultConfig)
                    = ((r @ ''\<newline>'') # ws, e)
                  \<and> handleCLIConn decodeExamples scanRow [''list\<newline>''] s' = (ws, e))
   \<and> handleCLIConn decodeExamples scanRow [''status\<newline>''] (initial storeFront defaultConfig)
        = ([''Unknown command\<newline>''], Closed (initial storeFront defaultConfig))"
proof -
  let ?s = "initial storeFront defaultConfig"
  have free: "\<not> workersMu ?s" by (simp add: initial_def)
  have w_stop: "hd (SplitN2 (TrimSpace ''stop\<newline>'') ''|'') = ''stop''"
    by (simp add: trim_stop SplitN2_def)
  have w_start: "hd (SplitN2 (TrimSpace '' start\<newline>'') ''|'') = ''start''"
    by (simp add: trim_start SplitN2_def)
  have w_status: "hd (SplitN2 (TrimSpace ''status\<newline>'') ''|'') = ''status''"
    by (simp add: trim_status SplitN2_def)
  have t_add: "TrimSpace addBackLine = ''addCamera|'' @ payloadBack"
    by (simp add: TrimSpace_def spaces_def payloadBack_def addBackLine_def)
  have s_add: "SplitN2 (TrimSpace addBackLine) ''|'' = [''addCamera'', payloadBack]"
    unfolding t_add by (rule split_addCamera)
  have w_add: "hd (SplitN2 (TrimSpace addBackLine) ''|'') = ''addCamera''"
    and l_add: "length (SplitN2 (TrimSpace addBackLine) ''|'') = 2"
    unfolding s_add by simp_all
  have regs: "workers ?s = []" by (simp add: initial_def)
  have rows: "cameras (db ?s) = [rowFront]" by (simp add: initial_def storeFront_def)
  have url: "fullURL (scanRow rowFront) \<noteq> None"
    by (simp add: fullURL_def scanRow_def rowFront_def nullString_def)
  have a: "\<exists>s' ws e. handleCLIConn decodeExamples scanRow [''stop\<newline>'', ''list\<newline>''] ?s
                    = (''Service stopped.\<newline>'' # ws, e)
                  \<and> handleCLIConn decodeExamples scanRow [''list\<newline>''] s' = (ws, e)"
    using handler_writes_one_response[of ?s "''stop\<newline>''" scanRow decodeExamples "[''list\<newline>'']"]
      free w_stop regs
    by (auto simp: handleCLICommand_def stopService_cases print_def)
  have b: "\<exists>s' ws e. handleCLIConn decodeExamples scanRow ['' start\<newline>'', ''stop\<newline>''] ?s
                    = (''Service started.\<newline>'' # ws, e)
                  \<and> handleCLIConn decodeExamples scanRow [''stop\<newline>''] s' = (ws, e)"
    using handler_writes_one_response[of ?s "'' start\<newline>''" scanRow decodeExamples "[''stop\<newline>'']"]
      free w_start rows url resp_start[OF w_start, of decodeExamples scanRow ?s]
    by (auto split: outcome.splits)
  have c: "\<exists>r s' ws e. handleCLIConn decodeExamples scanRow [addBackLine, ''list\<newline>''] ?s
                    = ((r @ ''\<newline>'') # ws, e)
                  \<and> handleCLIConn decodeExamples scanRow [''list\<newline>''] s' = (ws, e)"
    using handler_writes_one_response[of ?s addBackLine scanRow decodeExamples "[''list\<newline>'']"]
      free w_add l_add
    by auto
  have d: "handleCLIConn decodeExamples scanRow [''status\<newline>''] ?s = ([''Unknown command\<newline>''], Closed ?s)"
    using handler_writes_one_response[of ?s "''status\<newline>''" scanRow decodeExamples "[]"]
      free w_status
    by auto
  from free w_stop regs w_start rows url w_add l_add a b c d show ?thesis by (intro conjI)
qed

subsection \<open>C3: a worker whose process exits is restarted after a bounded delay\<close>

text \<open>
  C3. A supervised worker whose process repeatedly exits non-zero is restarted, with
  a delay between restarts that is never negative, never below the retry interval
  and bounded by the maximum backoff. The code does not do this. With the default
  config, the process of worker 1 is spawned and exits with status 1; the
  supervisor logs the failure, sleeps the 10 seconds of the retry interval and is
  back at \<open>cmd.Run()\<close>. But it calls \<open>Run\<close> on the \<open>exec.Cmd\<close> that
  \<open>startWorker\<close> built once, whose \<open>Process\<close> is set: whatever happens from then
  on, no process is spawned and none is alive.
\<close>

theorem exited_process_is_not_restarted:
  "(case startWorker (scanRow rowFront) (initial storeFront defaultConfig) of
      Done s1 \<Rightarrow>
        live (supRun 0 [Spawns] s1) = {0}
        \<and> live (supRun 0 [Spawns, Exits (Some ''exit status 1'')] s1) = {}
        \<and> sup_pc (sups (supRun 0 [Spawns, Exits (Some ''exit status 1'')] s1) ! 0) = AtRun
        \<and> sup_slept (sups (supRun 0 [Spawns, Exits (Some ''exit status 1'')] s1) ! 0) = [10000000000]
        \<and> (\<forall>evs. live (supRun 0 evs (supRun 0 [Spawns, Exits (Some ''exit status 1'')] s1)) = {}
                 \<and> next_pid (supRun 0 evs (supRun 0 [Spawns, Exits (Some ''exit status 1'')] s1)) = 1)
    | Panic m \<Rightarrow> False
    | Deadlock h \<Rightarrow> False)"
proof -
  have r: "supRun 0 [Spawns] frontStarted = frontRunning"
    using frontRunning_reached by simp
  have k: "0 < length (sups frontExited)" "sup_cmd (sups frontExited ! 0) < length (cmds frontExited)"
      "Process (cmds frontExited ! sup_cmd (sups frontExited ! 0)) = Some 0"
      "sup_pc (sups frontExited ! 0) = AtRun \<or> sup_pc (sups frontExited ! 0) = Returned"
    by (simp_all add: frontExited_def frontRunning_def frontStarted_def)
  have e: "live frontExited = {}" "next_pid frontExited = 1" "sup_pc (sups frontExited ! 0) = AtRun"
      "sup_slept (sups frontExited ! 0) = [10000000000]" "live frontRunning = {0}"
    by (simp_all add: frontExited_def frontRunning_def frontStarted_def)
  have n: "live (supRun 0 evs frontExited) = {} \<and> next_pid (supRun 0 evs frontExited) = 1" for evs
    using supRun_no_respawn[OF k, of evs] e(1,2) by simp
  show ?thesis
    unfolding frontStarted_reached outcome.case r frontExited_reached
    using e n by simp
qed

text \<open>
  The pause itself: as long as the retry interval is at most 9223372036 seconds,
  every sleep a run of a supervisor adds has exactly the length of the retry
  interval; above that, the product with \<open>time.Second\<close> wraps and \<open>time.Sleep\<close>
  is called with a negative duration, which does not pause.
\<close>

lemma retry_pause_exact:
  assumes "0 \<le> RetryInterval (config s)" and "RetryInterval (config s) \<le> 9223372036"
    and "RetryInterval (config s) \<le> MaxBackoff (config s)"
  shows "\<exists>n. sup_slept (sups (supRun k evs s) ! k)
              = sup_slept (sups s ! k) @ replicate n (RetryInterval (config s) * 1000000000)
           \<and> paused (RetryInterval (config s) * 1000000000) = RetryInterval (config s) * 1000000000
           \<and> 0 \<le> RetryInterval (config s) * 1000000000
           \<and> RetryInterval (config s) * 1000000000 \<le> MaxBackoff (config s) * 1000000000"
proof -
  from supRun_slept[of k evs s] obtain n where
    "sup_slept (sups (supRun k evs s) ! k) = sup_slept (sups s ! k) @ replicate n (sleepDuration (config s))"
    by blast
  with sleepDuration_exact[OF assms(1,2)] have
    "sup_slept (sups (supRun k evs s) ! k)
       = sup_slept (sups s ! k) @ replicate n (RetryInterval (config s) * 1000000000)" by simp
  moreover from assms(1) have "paused (RetryInterval (config s) * 1000000000) = RetryInterval (config s) * 1000000000"
    by (simp add: paused_def)
  ultimately show ?thesis using assms(1,3) by auto
qed

lemma sleep_wraps_for_huge_interval:
  "0 \<le> RetryInterval hugeConfig \<and> RetryInterval hugeConfig \<le> MaxBackoff hugeConfig
   \<and> (case startWorker (scanRow rowFront) (initial storeFront hugeConfig) of
        Done s1 \<Rightarrow>
          sup_slept (sups (supStep 0 (SpawnFails ''fork/exec /usr/bin/ffmpeg: resource temporarily unavailable'') s1) ! 0)
            = [- 9223372036709551616]
      | Panic m \<Rightarrow> False
      | Deadlock h \<Rightarrow> False)
   \<and> paused (- 9223372036709551616) = 0
   \<and> paused (- 9223372036709551616) < RetryInterval hugeConfig * 1000000000"
  by (simp add: hugeConfig_def startWorker_def Lock_def Unlock_def initial_def scanRow_def rowFront_def
        nullString_def fullURL_def Let_def supStep_def afterRun_def print_def sleepDuration_def wrap64_def
        paused_def)

subsection \<open>C4: a failed spawn and the registry\<close>




subsection \<open>C5: starting a worker that is already registered\<close>

text \<open>
  C5. When the identifier of the camera is already in the registry (and the caller
  does not hold the mutex), \<open>startWorker\<close> returns after printing that the worker
  is already running; the message is the only change: the registry, the handle of
  the camera, the command objects, the channels, the supervisors and the live
  processes are as before.
\<close>

theorem startWorker_already_running:
  assumes "\<not> workersMu s" and "map_of (workers s) (ID cam) = Some w"
  shows "\<exists>s'. startWorker cam s = Done s'
           \<and> s' = s\<lparr>stdout := stdout s @ [''Worker for '' @ Name cam @ '' already running\<newline>'']\<rparr>
           \<and> workers s' = workers s \<and> map_of (workers s') (ID cam) = Some w
           \<and> cmds s' = cmds s \<and> chans s' = chans s \<and> sups s' = sups s \<and> live s' = live s"
  using startWorker_existing[OF assms] assms(2) by simp

theorem startWorker_already_running_witness:
  "\<not> workersMu frontRunning
   \<and> map_of (workers frontRunning) (ID (scanRow rowFront)) = Some \<lparr>cmd = 0, camera = scanRow rowFront, stopCh = 0\<rparr>
   \<and> startWorker (scanRow rowFront) frontRunning
       = Done (frontRunning\<lparr>stdout := [''Worker for front already running\<newline>'']\<rparr>)"
proof -
  have h2: "map_of (workers frontRunning) (ID (scanRow rowFront)) = Some \<lparr>cmd = 0, camera = scanRow rowFront, stopCh = 0\<rparr>"
    by (simp add: frontRunning_def frontStarted_def scanRow_def rowFront_def)
  have n: "Name (scanRow rowFront) = ''front''" by (simp add: scanRow_def rowFront_def)
  have o: "stdout frontRunning = []" by (simp add: frontRunning_def frontStarted_def)
  from startWorker_already_running[OF frontRunning_free h2] n o
  have "startWorker (scanRow rowFront) frontRunning
       = Done (frontRunning\<lparr>stdout := [''Worker for front already running\<newline>'']\<rparr>)" by simp
  with frontRunning_free h2 show ?thesis by (intro conjI)
qed

subsection \<open>C6: stop is idempotent\<close>

text \<open>
  C6. In every state of the registry (the invariant holds, the caller does not hold
  the mutex) \<open>stopWorker\<close> returns; calling it again returns the same state;
  afterwards the identifier has no entry; and when it had none before, the state is
  unchanged.
\<close>

theorem stopWorker_idempotent:
  assumes "\<not> workersMu s" and "wf s"
  shows "\<exists>s1. stopWorker i s = Done s1 \<and> stopWorker i s1 = Done s1 \<and> map_of (workers s1) i = None
           \<and> (map_of (workers s) i = None \<longrightarrow> s1 = s)"
proof (cases "map_of (workers s) i")
  case None
  with assms(1) show ?thesis by (simp add: stopWorker_absent)
next
  case (Some w)
  from stopWorker_present[OF assms Some] obtain s1 where
    s1: "stopWorker i s = Done s1" "workers s1 = AList.delete i (workers s)" "\<not> workersMu s1"
    by blast
  from s1(2) have gone: "map_of (workers s1) i = None" by (simp add: delete_conv')
  with s1(3) have "stopWorker i s1 = Done s1" by (rule stopWorker_absent)
  with s1(1) gone Some show ?thesis by simp
qed

theorem stopWorker_idempotent_witness:
  "\<not> workersMu frontRunning \<and> wf frontRunning
   \<and> (\<exists>s1. stopWorker 1 frontRunning = Done s1 \<and> stopWorker 1 s1 = Done s1 \<and> map_of (workers s1) 1 = None)
   \<and> (case stopWorker 1 frontRunning of Done s1 \<Rightarrow> workers s1 = [] \<and> live s1 = {} \<and> chans s1 = [True]
        | Panic m \<Rightarrow> False | Deadlock h \<Rightarrow> False)"
proof -
  from stopWorker_idempotent[OF frontRunning_free frontRunning_wf, of 1]
  have a: "\<exists>s1. stopWorker 1 frontRunning = Done s1 \<and> stopWorker 1 s1 = Done s1 \<and> map_of (workers s1) 1 = None"
    by blast
  have b: "(case stopWorker 1 frontRunning of Done s1 \<Rightarrow> workers s1 = [] \<and> live s1 = {} \<and> chans s1 = [True]
        | Panic m \<Rightarrow> False | Deadlock h \<Rightarrow> False)"
    by (simp add: stopWorker_def Lock_def Unlock_def print_def frontRunning_def frontStarted_def Let_def)
  from frontRunning_free frontRunning_wf a b show ?thesis by (intro conjI)
qed

subsection \<open>C7: addCamera, then list\<close>

text \<open>
  C7 as stated fails. The column \<open>restream_url\<close> is UNIQUE: a payload whose name,
  url and output directory are new, but whose restream target is the one of a stored
  camera, is rejected.
\<close>

theorem unique_payload_counterexample:
  "(case addCamera decodeExamples payloadPorch emptyDB of
      (r1, d1) \<Rightarrow>
        isSuccess r1 1 \<and> decodeExamples payloadDoor = Inr camDoor
        \<and> Name camDoor \<notin> c_name ` set (cameras d1) \<and> URL camDoor \<notin> c_url ` set (cameras d1)
        \<and> OutputDir camDoor \<notin> c_output_dir ` set (cameras d1)
        \<and> isFailure (fst (addCamera decodeExamples payloadDoor d1))
        \<and> snd (addCamera decodeExamples payloadDoor d1) = d1)"
  apply (subst add_porch_empty)
  apply (simp add: decode_door isSuccess_def isFailure_def Itoa_def digits.simps camDoor_def
        nullString_def addCamera_def insertCamera_def uniqueViolation_def)
  done

text \<open>
  C7, amended. Let the payload decode without error, let its name, url and output
  directory be new to the store, and let the restream text the handler stores (the
  empty string for a null restream) be no stored \<open>restream_url\<close>; let the id
  sequence of the store be non-negative. Then the \<open>addCamera\<close> command returns the
  success response with a positive decimal identifier, and a \<open>list\<close> command
  issued next returns the earlier listing followed by the line with that
  identifier, the name and the url.
\<close>

theorem addCamera_then_list:
  assumes "unmarshal payload = Inr cam"
    and "Name cam \<notin> c_name ` set (cameras (db s))" and "URL cam \<notin> c_url ` set (cameras (db s))"
    and "OutputDir cam \<notin> c_output_dir ` set (cameras (db s))"
    and "Some (String (Restream cam)) \<notin> c_restream_url ` set (cameras (db s))"
    and "0 \<le> seq (db s)"
  shows "\<exists>i r s'. handleCLICommand unmarshal scan (''addCamera|'' @ payload) s = Resp r s'
           \<and> isSuccess r i \<and> 0 < i \<and> set (Itoa i) \<subseteq> set ''0123456789''
           \<and> handleCLICommand unmarshal scan ''list'' s'
               = Resp (listCamerasString (db s) @ ''ID: '' @ Itoa i @ '', Name: '' @ Name cam
                         @ '', URL: '' @ URL cam @ ''\<newline>'') s'"
proof -
  let ?i = "nextId (db s)"
  let ?d' = "(db s)\<lparr>cameras := cameras (db s) @ [\<lparr>c_id = ?i, c_name = Name cam, c_url = URL cam,
                     c_output_dir = OutputDir cam, c_restream_url = Some (String (Restream cam)),
                     c_username = Some (String (Username cam)), c_password = Some (String (Password cam))\<rparr>],
                seq := ?i\<rparr>"
  have w: "hd (SplitN2 (''addCamera|'' @ payload) ''|'') = ''addCamera''"
    using split_addCamera[of payload] by simp
  obtain r where r: "addCamera unmarshal payload (db s) = (r, ?d')" "isSuccess r ?i"
    using addCamera_ok[of unmarshal payload cam "db s", OF assms(1-5)] by (simp add: isSuccess_def)
  from resp_add[OF w, of unmarshal scan s] r(1)
  have a: "handleCLICommand unmarshal scan (''addCamera|'' @ payload) s = Resp r (s\<lparr>db := ?d'\<rparr>)"
    using split_addCamera[of payload] by simp
  have l: "hd (SplitN2 ''list'' ''|'') = ''list''" by (simp add: split_list)
  have b: "handleCLICommand unmarshal scan ''list'' (s\<lparr>db := ?d'\<rparr>)
             = Resp (listCamerasString (db s) @ ''ID: '' @ Itoa ?i @ '', Name: '' @ Name cam
                         @ '', URL: '' @ URL cam @ ''\<newline>'') (s\<lparr>db := ?d'\<rparr>)"
    using resp_list[OF l, of unmarshal scan "s\<lparr>db := ?d'\<rparr>"]
    by (simp add: listCamerasString_def cameraLine_def)
  from nextId_pos[OF assms(6)] have p: "0 < ?i" .
  then have n: "set (Itoa ?i) \<subseteq> set ''0123456789''" by (intro Itoa_numeric) simp
  from a b r(2) p n show ?thesis by blast
qed

theorem addCamera_then_list_witness:
  "decodeExamples payloadBack = Inr camBack
   \<and> Name camBack \<notin> c_name ` set (cameras (db (initial storeFront defaultConfig)))
   \<and> URL camBack \<notin> c_url ` set (cameras (db (initial storeFront defaultConfig)))
   \<and> OutputDir camBack \<notin> c_output_dir ` set (cameras (db (initial storeFront defaultConfig)))
   \<and> Some (String (Restream camBack)) \<notin> c_restream_url ` set (cameras (db (initial storeFront defaultConfig)))
   \<and> 0 \<le> seq (db (initial storeFront defaultConfig))
   \<and> (\<exists>i r s'. handleCLICommand decodeExamples scanRow (''addCamera|'' @ payloadBack) (initial storeFront defaultConfig)
                   = Resp r s'
         \<and> isSuccess r i \<and> 0 < i
         \<and> handleCLICommand decodeExamples scanRow ''list'' s'
             = Resp (''ID: 1, Name: front, URL: rtsp://cam1/s\<newline>'' @ ''ID: '' @ Itoa i @ '', Name: back, URL: rtsp://cam2/s\<newline>'') s')"
proof -
  let ?s = "initial storeFront defaultConfig"
  have h2: "Name camBack \<notin> c_name ` set (cameras (db ?s))"
    and h3: "URL camBack \<notin> c_url ` set (cameras (db ?s))"
    and h4: "OutputDir camBack \<notin> c_output_dir ` set (cameras (db ?s))"
    and h5: "Some (String (Restream camBack)) \<notin> c_restream_url ` set (cameras (db ?s))"
    and h6: "0 \<le> seq (db ?s)"
    by (simp_all add: initial_def storeFront_def rowFront_def camBack_def nullString_def)
  have l: "listCamerasString (db ?s) = ''ID: 1, Name: front, URL: rtsp://cam1/s\<newline>''"
    by (simp add: initial_def storeFront_def rowFront_def listCamerasString_def cameraLine_def Itoa_def digits.simps)
  have n: "Name camBack = ''back''" "URL camBack = ''rtsp://cam2/s''" by (simp_all add: camBack_def)
  from addCamera_then_list[of decodeExamples payloadBack camBack ?s scanRow, OF decode_back h2 h3 h4 h5 h6]
  have "\<exists>i r s'. handleCLICommand decodeExamples scanRow (''addCamera|'' @ payloadBack) ?s = Resp r s'
         \<and> isSuccess r i \<and> 0 < i
         \<and> handleCLICommand decodeExamples scanRow ''list'' s'
             = Resp (''ID: 1, Name: front, URL: rtsp://cam1/s\<newline>'' @ ''ID: '' @ Itoa i @ '', Name: back, URL: rtsp://cam2/s\<newline>'') s'"
    unfolding l n by (elim exE conjE) (intro exI conjI, assumption+, simp)
  with decode_back h2 h3 h4 h5 h6 show ?thesis by (intro conjI)
qed

subsection \<open>C8: credentials in the stream locator\<close>




subsection \<open>C9: malformed and duplicate payloads\<close>

text \<open>
  C9. When the payload does not decode, or decodes to a camera whose name, url or
  output directory is that of a stored record, \<open>addCamera\<close> returns a failure
  response and the store, hence its number of cameras, is unchanged.
\<close>

theorem addCamera_rejects:
  assumes "(\<exists>err. unmarshal payload = Inl err) \<or>
           (\<exists>cam. unmarshal payload = Inr cam \<and>
              (Name cam \<in> c_name ` set (cameras d) \<or> URL cam \<in> c_url ` set (cameras d)
               \<or> OutputDir cam \<in> c_output_dir ` set (cameras d)))"
  shows "isFailure (fst (addCamera unmarshal payload d)) \<and>
         snd (addCamera unmarshal payload d) = d \<and>
         length (cameras (snd (addCamera unmarshal payload d))) = length (cameras d)"
proof -
  from assms consider (bad) err where "unmarshal payload = Inl err"
    | (dup) cam where "unmarshal payload = Inr cam"
        "Name cam \<in> c_name ` set (cameras d) \<or> URL cam \<in> c_url ` set (cameras d)
               \<or> OutputDir cam \<in> c_output_dir ` set (cameras d)"
    by blast
  then show ?thesis
  proof cases
    case bad
    with isFailure_wrap[of "''Invalid JSON: '' @ err"] show ?thesis by (simp add: addCamera_def)
  next
    case dup
    from insertCamera_dup[OF dup(2)] obtain e where
      "insertCamera d (Name cam) (URL cam) (OutputDir cam) (Some (String (Restream cam)))
         (Some (String (Username cam))) (Some (String (Password cam))) = Inl e" by blast
    with dup(1) isFailure_wrap[of "''Error adding camera: '' @ e"] show ?thesis by (simp add: addCamera_def)
  qed
qed

theorem addCamera_rejects_witness:
  "decodeExamples ''invalid json'' = Inl ''invalid character 'i' looking for beginning of value''
   \<and> isFailure (fst (addCamera decodeExamples ''invalid json'' storeFront))
   \<and> snd (addCamera decodeExamples ''invalid json'' storeFront) = storeFront
   \<and> decodeExamples payloadFront = Inr camFront
   \<and> Name camFront \<in> c_name ` set (cameras storeFront)
   \<and> isFailure (fst (addCamera decodeExamples payloadFront storeFront))
   \<and> length (cameras (snd (addCamera decodeExamples payloadFront storeFront))) = length (cameras storeFront)"
proof -
  have bad: "decodeExamples ''invalid json'' = Inl ''invalid character 'i' looking for beginning of value''"
    by (simp add: decodeExamples_def payloadFront_def payloadBack_def payloadPorch_def payloadDoor_def
          payloadYard_def)
  have dup: "Name camFront \<in> c_name ` set (cameras storeFront)"
    by (simp add: camFront_def storeFront_def rowFront_def)
  from addCamera_rejects[of decodeExamples "''invalid json''" storeFront] bad
  have a: "isFailure (fst (addCamera decodeExamples ''invalid json'' storeFront))"
       "snd (addCamera decodeExamples ''invalid json'' storeFront) = storeFront"
    by blast+
  from addCamera_rejects[of decodeExamples payloadFront storeFront] decode_front dup
  have b: "isFailure (fst (addCamera decodeExamples payloadFront storeFront))"
       "length (cameras (snd (addCamera decodeExamples payloadFront storeFront))) = length (cameras storeFront)"
    by blast+
  from bad a decode_front dup b show ?thesis by (intro conjI)
qed

subsection \<open>C10: a null restream is stored as the empty string\<close>

text \<open>
  C10 as stated fails. Once one camera with a null restream is stored, of two
  further payloads with null restream and new, distinct names, urls and output
  directories already the first is rejected.
\<close>

theorem null_restream_counterexample:
  "(case addCamera decodeExamples payloadFront emptyDB of
      (r0, d0) \<Rightarrow>
        isSuccess r0 1
        \<and> decodeExamples payloadBack = Inr camBack \<and> decodeExamples payloadYard = Inr camYard
        \<and> \<not> Valid (Restream camBack) \<and> \<not> Valid (Restream camYard)
        \<and> Name camBack \<notin> c_name ` set (cameras d0) \<and> URL camBack \<notin> c_url ` set (cameras d0)
        \<and> OutputDir camBack \<notin> c_output_dir ` set (cameras d0)
        \<and> Name camYard \<notin> c_name ` set (cameras d0) \<and> URL camYard \<notin> c_url ` set (cameras d0)
        \<and> OutputDir camYard \<notin> c_output_dir ` set (cameras d0)
        \<and> Name camBack \<noteq> Name camYard \<and> URL camBack \<noteq> URL camYard \<and> OutputDir camBack \<noteq> OutputDir camYard
        \<and> isFailure (fst (addCamera decodeExamples payloadBack d0))
        \<and> snd (addCamera decodeExamples payloadBack d0) = d0)"
  apply (subst add_front_empty)
  apply (simp add: decode_back decode_yard isSuccess_def isFailure_def Itoa_def digits.simps
        camBack_def camYard_def nullString_def addCamera_def insertCamera_def uniqueViolation_def)
  done

text \<open>
  C10, amended. \<open>addCamera\<close> stores the restream, username and password texts,
  never NULL: the empty string for a null restream. So for two payloads with null
  restream whose names, urls and output directories are distinct and new to a store
  that holds no empty \<open>restream_url\<close>, the first is accepted and the second gets a
  failure response and leaves the store unchanged.
\<close>

theorem null_restream_second_rejected:
  assumes "unmarshal p1 = Inr c1" and "unmarshal p2 = Inr c2"
    and "Restream c1 = snd (UnmarshalJSON dec ''null'' z1)"
    and "Restream c2 = snd (UnmarshalJSON dec ''null'' z2)"
    and "Name c1 \<notin> c_name ` set (cameras d)" and "URL c1 \<notin> c_url ` set (cameras d)"
    and "OutputDir c1 \<notin> c_output_dir ` set (cameras d)"
    and "Name c2 \<notin> c_name ` set (cameras d)" and "URL c2 \<notin> c_url ` set (cameras d)"
    and "OutputDir c2 \<notin> c_output_dir ` set (cameras d)"
    and "Name c1 \<noteq> Name c2" and "URL c1 \<noteq> URL c2" and "OutputDir c1 \<noteq> OutputDir c2"
    and "Some [] \<notin> c_restream_url ` set (cameras d)"
  shows "\<exists>r1 d1 i. addCamera unmarshal p1 d = (r1, d1) \<and> isSuccess r1 i
           \<and> c_restream_url (last (cameras d1)) = Some []
           \<and> c_username (last (cameras d1)) = Some (String (Username c1))
           \<and> c_password (last (cameras d1)) = Some (String (Password c1))
           \<and> isFailure (fst (addCamera unmarshal p2 d1))
           \<and> snd (addCamera unmarshal p2 d1) = d1"
proof -
  from assms(3) have n1: "String (Restream c1) = []" by (simp add: UnmarshalJSON_def)
  from assms(4) have n2: "String (Restream c2) = []" by (simp add: UnmarshalJSON_def)
  let ?d1 = "d\<lparr>cameras := cameras d @ [\<lparr>c_id = nextId d, c_name = Name c1, c_url = URL c1,
                     c_output_dir = OutputDir c1, c_restream_url = Some (String (Restream c1)),
                     c_username = Some (String (Username c1)), c_password = Some (String (Password c1))\<rparr>],
                seq := nextId d\<rparr>"
  from assms(14) n1 have fresh: "Some (String (Restream c1)) \<notin> c_restream_url ` set (cameras d)" by simp
  obtain r1 where r1: "addCamera unmarshal p1 d = (r1, ?d1)" "isSuccess r1 (nextId d)"
    using addCamera_ok[of unmarshal p1 c1 d, OF assms(1) assms(5-7) fresh] by (simp add: isSuccess_def)
  have "uniqueViolation (cameras ?d1) (Name c2) (URL c2) (OutputDir c2) (Some (String (Restream c2)))
          = Some ''restream_url''"
    using assms(8-13) n1 n2 by (auto simp: uniqueViolation_def)
  then have "insertCamera ?d1 (Name c2) (URL c2) (OutputDir c2) (Some (String (Restream c2)))
               (Some (String (Username c2))) (Some (String (Password c2)))
             = Inl (''constraint failed: UNIQUE constraint failed: cameras.restream_url (2067)'')"
    by (simp add: insertCamera_def)
  with assms(2) isFailure_wrap[of "''Error adding camera: constraint failed: UNIQUE constraint failed: cameras.restream_url (2067)''"]
  have f: "isFailure (fst (addCamera unmarshal p2 ?d1))" "snd (addCamera unmarshal p2 ?d1) = ?d1"
    by (simp_all add: addCamera_def)
  have l: "c_restream_url (last (cameras ?d1)) = Some []" "c_username (last (cameras ?d1)) = Some (String (Username c1))"
      "c_password (last (cameras ?d1)) = Some (String (Password c1))"
    using n1 by simp_all
  from r1 f l show ?thesis by blast
qed

theorem null_restream_second_rejected_witness:
  "decodeExamples payloadFront = Inr camFront \<and> decodeExamples payloadBack = Inr camBack
   \<and> Restream camFront = snd (UnmarshalJSON Inr ''null'' nullString)
   \<and> Restream camBack = snd (UnmarshalJSON Inr ''null'' nullString)
   \<and> Name camFront \<noteq> Name camBack \<and> URL camFront \<noteq> URL camBack \<and> OutputDir camFront \<noteq> OutputDir camBack
   \<and> Some [] \<notin> c_restream_url ` set (cameras emptyDB)
   \<and> (\<exists>r1 d1 i. addCamera decodeExamples payloadFront emptyDB = (r1, d1) \<and> isSuccess r1 i
          \<and> c_restream_url (last (cameras d1)) = Some []
          \<and> c_username (last (cameras d1)) = Some []
          \<and> c_password (last (cameras d1)) = Some []
          \<and> isFailure (fst (addCamera decodeExamples payloadBack d1))
          \<and> snd (addCamera decodeExamples payloadBack d1) = d1)"
proof -
  have n1: "Restream camFront = snd (UnmarshalJSON Inr ''null'' nullString)"
    and n2: "Restream camBack = snd (UnmarshalJSON Inr ''null'' nullString)"
    by (simp_all add: UnmarshalJSON_def camFront_def camBack_def nullString_def)
  have e: "Name camFront \<notin> c_name ` set (cameras emptyDB)" "URL camFront \<notin> c_url ` set (cameras emptyDB)"
      "OutputDir camFront \<notin> c_output_dir ` set (cameras emptyDB)"
      "Name camBack \<notin> c_name ` set (cameras emptyDB)" "URL camBack \<notin> c_url ` set (cameras emptyDB)"
      "OutputDir camBack \<notin> c_output_dir ` set (cameras emptyDB)"
      "Some [] \<notin> c_restream_url ` set (cameras emptyDB)"
    by (simp_all add: emptyDB_def)
  have ne: "Name camFront \<noteq> Name camBack" "URL camFront \<noteq> URL camBack" "OutputDir camFront \<noteq> OutputDir camBack"
    by (simp_all add: camFront_def camBack_def)
  have u: "String (Username camFront) = []" "String (Password camFront) = []"
    by (simp_all add: camFront_def nullString_def)
  from null_restream_second_rejected[of decodeExamples payloadFront camFront payloadBack camBack Inr nullString nullString emptyDB,
      OF decode_front decode_back n1 n2 e(1-6) ne e(7)]
  have "\<exists>r1 d1 i. addCamera decodeExamples payloadFront emptyDB = (r1, d1) \<and> isSuccess r1 i
          \<and> c_restream_url (last (cameras d1)) = Some []
          \<and> c_username (last (cameras d1)) = Some []
          \<and> c_password (last (cameras d1)) = Some []
          \<and> isFailure (fst (addCamera decodeExamples payloadBack d1))
          \<and> snd (addCamera decodeExamples payloadBack d1) = d1"
    unfolding u .
  with decode_front decode_back n1 n2 ne e(7) show ?thesis by (intro conjI)
qed

end
